theory Spec2Isabelle
  imports Main "HOL-Library.Word" "HOL-Library.Sublist"
begin

section \<open>Data model\<close>

text \<open>
  The HID control core of the repository (\<^verbatim>\<open>hid_windows.go\<close>) together with the
  polling-rate table of the configuration file (\<^verbatim>\<open>pollingToYY\<close>). Go's \<^verbatim>\<open>byte\<close> is an
  8-bit word, \<^verbatim>\<open>uint16\<close> a 16-bit word, \<^verbatim>\<open>uint32\<close> a 32-bit word; Go's \<^verbatim>\<open>int\<close> is modelled as
  \<^typ>\<open>int\<close> (every length that occurs comes from a \<^verbatim>\<open>uint16\<close> or is the constant 64, so
  no overflow can arise). Strings are lists of characters.
\<close>

type_synonym byte = "8 word"
type_synonym uint16 = "16 word"
type_synonym uint32 = "32 word"

text \<open>\<^verbatim>\<open>type PerfMode byte\<close> with its four constants, \<^verbatim>\<open>type PollingRate int\<close> with its three.\<close>

type_synonym PerfMode = byte
type_synonym PollingRate = int

definition PerfCompetitiveMSOff :: PerfMode where "PerfCompetitiveMSOff = 0x01"
definition PerfStandardMSOff :: PerfMode where "PerfStandardMSOff = 0x02"
definition PerfCompetitiveMSOn :: PerfMode where "PerfCompetitiveMSOn = 0x03"
definition PerfStandardMSOn :: PerfMode where "PerfStandardMSOn = 0x04"

definition Poll1000 :: PollingRate where "Poll1000 = 1000"
definition Poll2000 :: PollingRate where "Poll2000 = 2000"
definition Poll4000 :: PollingRate where "Poll4000 = 4000"

text \<open>\<^verbatim>\<open>struct VaxeeDeviceInfo\<close>; \<open>zeroDeviceInfo\<close> is Go's zero value \<^verbatim>\<open>VaxeeDeviceInfo{}\<close>.\<close>

record VaxeeDeviceInfo =
  Path :: string
  VID :: uint16
  PID :: uint16
  Manufacturer :: string
  Product :: string
  UsagePage :: uint16
  Usage :: uint16
  FeatureLen :: uint16

definition zeroDeviceInfo :: VaxeeDeviceInfo where
  "zeroDeviceInfo = \<lparr>Path = [], VID = 0, PID = 0, Manufacturer = [], Product = [],
     UsagePage = 0, Usage = 0, FeatureLen = 0\<rparr>"

text \<open>
  Every \<^verbatim>\<open>error\<close> value the core returns. The message texts of the source carry the
  Windows error number as well; the model keeps the failure class and its arguments.
\<close>

datatype error =
    ErrEmptyReport                \<comment> \<open>\<^verbatim>\<open>empty report\<close>\<close>
  | ErrInvalidLength              \<comment> \<open>\<^verbatim>\<open>invalid length\<close>\<close>
  | ErrEINVAL                     \<comment> \<open>\<^verbatim>\<open>syscall.UTF16PtrFromString\<close> on a string with a NUL\<close>
  | ErrCreateFile string          \<comment> \<open>\<^verbatim>\<open>CreateFileW failed\<close>\<close>
  | ErrSetFeature                 \<comment> \<open>\<^verbatim>\<open>HidD_SetFeature failed\<close>\<close>
  | ErrGetFeature                 \<comment> \<open>\<^verbatim>\<open>HidD_GetFeature failed\<close>\<close>
  | ErrPreparsedData              \<comment> \<open>\<^verbatim>\<open>HidD_GetPreparsedData failed\<close>\<close>
  | ErrGetCaps uint32             \<comment> \<open>\<^verbatim>\<open>HidP_GetCaps failed\<close>, with the status\<close>
  | ErrClassDevs                  \<comment> \<open>\<^verbatim>\<open>SetupDiGetClassDevsW failed\<close>\<close>
  | ErrNoDevice                   \<comment> \<open>\<^verbatim>\<open>no VAXEE HID device found\<close>\<close>
  | ErrNoControl                  \<comment> \<open>\<^verbatim>\<open>no VAXEE top-level collection accepts Feature ReportID=0x0e\<close>\<close>
  | ErrUnsupportedRate int        \<comment> \<open>\<^verbatim>\<open>unsupported polling rate\<close>\<close>
  | ErrPerfReport error           \<comment> \<open>\<^verbatim>\<open>perf feature report failed\<close>, wrapping the cause\<close>
  | ErrPollReport error           \<comment> \<open>\<^verbatim>\<open>poll feature report failed\<close>, wrapping the cause\<close>

section \<open>Report codec\<close>

text \<open>
  \<^verbatim>\<open>buildReportSized\<close>: clamp the length to 6, allocate a zeroed buffer, then six
  assignments by index.
\<close>

definition buildReportSized :: "int \<Rightarrow> byte \<Rightarrow> byte \<Rightarrow> byte list" where
  "buildReportSized total_len cmd val =
     (let total_len = (if total_len < 6 then 6 else total_len);
          buf = replicate (nat total_len) (0 :: byte);
          buf = buf[0 := 0x0e];
          buf = buf[1 := 0xa5];
          buf = buf[2 := cmd];
          buf = buf[3 := 0x02];
          buf = buf[4 := 0x01];
          buf = buf[5 := val]
      in buf)"

text \<open>\<^verbatim>\<open>pollingToYY\<close>: the switch over the three rates, with its default branch.\<close>

definition pollingToYY :: "PollingRate \<Rightarrow> error + byte" where
  "pollingToYY p =
     (if p = Poll1000 then Inr 0x02
      else if p = Poll2000 then Inr 0x03
      else if p = Poll4000 then Inr 0x04
      else Inl (ErrUnsupportedRate p))"

section \<open>Strings\<close>

text \<open>
  The three functions of Go's \<^verbatim>\<open>strings\<close> package the core calls. \<^verbatim>\<open>ToLower\<close> is modelled on
  the ASCII letters (device paths and HID strings of the vendor are ASCII); \<^verbatim>\<open>Contains\<close> is
  the contiguous-sublist test and \<^verbatim>\<open>HasSuffix\<close> the suffix test of the list library.
\<close>

definition toLowerChar :: "char \<Rightarrow> char" where
  "toLowerChar c =
     (let n = (of_char c :: nat) in if 65 \<le> n \<and> n \<le> 90 then char_of (n + 32) else c)"

definition ToLower :: "string \<Rightarrow> string" where
  "ToLower s = map toLowerChar s"

definition Contains :: "string \<Rightarrow> string \<Rightarrow> bool" where
  "Contains s substr = sublist substr s"

definition HasSuffix :: "string \<Rightarrow> string \<Rightarrow> bool" where
  "HasSuffix s suff = suffix suff s"

text \<open>The NUL character, the vendor substring and the keyboard-collection suffix \<^verbatim>\<open>\kbd\<close>.\<close>

definition NUL :: char where
  "NUL = CHR 0x00"

definition vendorSubstring :: string where
  "vendorSubstring = ''vaxee''"

definition kbdSuffix :: string where
  "kbdSuffix = [CHR 0x5C, CHR ''k'', CHR ''b'', CHR ''d'']"

text \<open>
  \<^verbatim>\<open>utf16FromPtr\<close> reads code units up to the first zero; \<^verbatim>\<open>syscall.UTF16ToString\<close> likewise
  stops at the first NUL of the buffer it is given.
\<close>

definition utf16FromPtr :: "string \<Rightarrow> string" where
  "utf16FromPtr units = takeWhile (\<lambda>u. u \<noteq> NUL) units"

definition UTF16ToString :: "string \<Rightarrow> string" where
  "UTF16ToString buf = takeWhile (\<lambda>u. u \<noteq> NUL) buf"

section \<open>The operating system boundary\<close>

text \<open>
  The core talks to Windows through \<^verbatim>\<open>setupapi.dll\<close>, \<^verbatim>\<open>hid.dll\<close> and \<^verbatim>\<open>kernel32.dll\<close>. The
  model makes the boundary explicit. Calls on a control channel (\<^verbatim>\<open>CreateFileW\<close> with access
  rights, \<^verbatim>\<open>HidD_GetFeature\<close>, \<^verbatim>\<open>HidD_SetFeature\<close>, \<^verbatim>\<open>CloseHandle\<close>) and \<^verbatim>\<open>time.Sleep\<close> are
  recorded, with their outcome, in a history that every operation takes and returns
  extended; the answer of the system to a call may depend on the whole history so far.
  A handle is identified with the path it was opened on.
\<close>

datatype access = ReadWrite | WriteOnly

datatype event =
    EvCreateFile string access bool
  | EvGetFeature string "byte list" bool
  | EvSetFeature string "byte list" bool
  | EvCloseHandle string
  | EvSleep nat

type_synonym history = "event list"

text \<open>The fields of \<^verbatim>\<open>HIDD_ATTRIBUTES\<close> and \<^verbatim>\<open>HIDP_CAPS\<close> the core reads.\<close>

record HIDD_ATTRIBUTES =
  VendorID :: uint16
  ProductID :: uint16

record HIDP_CAPS =
  caps_Usage :: uint16
  caps_UsagePage :: uint16
  caps_FeatureReportByteLength :: uint16

definition HIDP_STATUS_SUCCESS :: uint32 where
  "HIDP_STATUS_SUCCESS = 0x00110000"

definition ERROR_NO_MORE_ITEMS :: nat where
  "ERROR_NO_MORE_ITEMS = 259"

text \<open>
  What the system answers about one device interface during an enumeration: the size
  reported by the first \<^verbatim>\<open>SetupDiGetDeviceInterfaceDetailW\<close> call, whether the second call
  succeeds, the code units it stores from the \<^verbatim>\<open>DevicePath\<close> offset on, whether the path
  opens without access rights, and the results of \<^verbatim>\<open>HidD_GetAttributes\<close>,
  \<^verbatim>\<open>HidD_GetManufacturerString\<close>, \<^verbatim>\<open>HidD_GetProductString\<close> (the buffer, when the call
  succeeds), \<^verbatim>\<open>HidD_GetPreparsedData\<close> and \<^verbatim>\<open>HidP_GetCaps\<close>.
\<close>

record hid_interface =
  detail_required :: uint32
  detail_ok :: bool
  detail_DevicePath :: string
  query_open_ok :: bool
  attributes :: "HIDD_ATTRIBUTES option"
  manufacturer_string :: "string option"
  product_string :: "string option"
  preparsed_ok :: bool
  caps_status :: uint32
  caps :: HIDP_CAPS

text \<open>
  \<^verbatim>\<open>SetupDiEnumDeviceInterfaces\<close> at one index: an interface, or a failure with its error
  number. A device information set is the list of the answers at index 0, 1, 2, ...;
  past its end the system answers \<^verbatim>\<open>ERROR_NO_MORE_ITEMS\<close>.
\<close>

datatype enum_result = EnumOk hid_interface | EnumFailed nat

text \<open>
  The system: what \<^verbatim>\<open>SetupDiGetClassDevsW\<close> returns (nothing when it fails, else the device
  information set), whether \<^verbatim>\<open>CreateFileW\<close> opens a path with the given access, what
  \<^verbatim>\<open>HidD_GetFeature\<close> stores in the buffer (nothing when it fails) and whether
  \<^verbatim>\<open>HidD_SetFeature\<close> succeeds. The queries of an enumeration open a path without access
  rights and exchange no report; they are answered from the device information set and
  are not recorded in the history.
\<close>

record os =
  SetupDiGetClassDevsW :: "history \<Rightarrow> enum_result list option"
  CreateFileW :: "history \<Rightarrow> string \<Rightarrow> access \<Rightarrow> bool"
  HidD_GetFeature :: "history \<Rightarrow> string \<Rightarrow> byte list \<Rightarrow> byte list option"
  HidD_SetFeature :: "history \<Rightarrow> string \<Rightarrow> byte list \<Rightarrow> bool"

section \<open>Opening a path, sending and reading a feature report\<close>

text \<open>
  \<^verbatim>\<open>openHIDPath\<close>: \<^verbatim>\<open>UTF16PtrFromString\<close> refuses a path with a NUL; then read-write access
  is tried, then write-only.
\<close>

definition openHIDPath :: "os \<Rightarrow> history \<Rightarrow> string \<Rightarrow> (error + unit) \<times> history" where
  "openHIDPath os h path =
     (if NUL \<in> set path then (Inl ErrEINVAL, h)
      else
        let ok1 = CreateFileW os h path ReadWrite;
            h1 = h @ [EvCreateFile path ReadWrite ok1]
        in if ok1 then (Inr (), h1)
           else
             let ok2 = CreateFileW os h1 path WriteOnly;
                 h2 = h1 @ [EvCreateFile path WriteOnly ok2]
             in if ok2 then (Inr (), h2) else (Inl (ErrCreateFile path), h2))"

text \<open>\<^verbatim>\<open>sendFeatureReport\<close>; the deferred \<^verbatim>\<open>closeHandle\<close> runs after \<^verbatim>\<open>HidD_SetFeature\<close>.\<close>

definition sendFeatureReport :: "os \<Rightarrow> history \<Rightarrow> string \<Rightarrow> byte list \<Rightarrow> (error + unit) \<times> history" where
  "sendFeatureReport os h path report =
     (if length report = 0 then (Inl ErrEmptyReport, h)
      else
        case openHIDPath os h path of
          (Inl err, h1) \<Rightarrow> (Inl err, h1)
        | (Inr _, h1) \<Rightarrow>
            let r1 = HidD_SetFeature os h1 path report;
                h2 = h1 @ [EvSetFeature path report r1, EvCloseHandle path]
            in if \<not> r1 then (Inl ErrSetFeature, h2) else (Inr (), h2))"

text \<open>\<^verbatim>\<open>getFeature\<close>: a zeroed buffer of the given length whose first byte is the report ID.\<close>

definition getFeature :: "os \<Rightarrow> history \<Rightarrow> string \<Rightarrow> byte \<Rightarrow> int \<Rightarrow> (error + byte list) \<times> history" where
  "getFeature os h path reportID len =
     (if len \<le> 0 then (Inl ErrInvalidLength, h)
      else
        case openHIDPath os h path of
          (Inl err, h1) \<Rightarrow> (Inl err, h1)
        | (Inr _, h1) \<Rightarrow>
            let buf = (replicate (nat len) (0 :: byte))[0 := reportID]
            in (case HidD_GetFeature os h1 path buf of
                  None \<Rightarrow> (Inl ErrGetFeature, h1 @ [EvGetFeature path buf False, EvCloseHandle path])
                | Some filled \<Rightarrow> (Inr filled, h1 @ [EvGetFeature path buf True, EvCloseHandle path])))"

section \<open>Device enumerator\<close>

text \<open>\<^verbatim>\<open>hidGetString\<close>: a buffer of 256 code units; the empty string when the call fails.\<close>

definition hidGetString :: "string option \<Rightarrow> string" where
  "hidGetString answer =
     (case answer of None \<Rightarrow> [] | Some buf \<Rightarrow> UTF16ToString (take 256 buf))"

definition queryCaps :: "hid_interface \<Rightarrow> error + HIDP_CAPS" where
  "queryCaps ifc =
     (if \<not> preparsed_ok ifc then Inl ErrPreparsedData
      else if caps_status ifc \<noteq> HIDP_STATUS_SUCCESS then Inl (ErrGetCaps (caps_status ifc))
      else Inr (caps ifc))"

text \<open>
  \<^verbatim>\<open>queryDeviceInfo\<close> returns a descriptor and a flag. \<^verbatim>\<open>openHIDPathForQuery\<close> fails on a
  path with a NUL or when \<^verbatim>\<open>CreateFileW\<close> does; a failure of \<^verbatim>\<open>queryCaps\<close> leaves the usage
  and length fields at zero.
\<close>

definition queryDeviceInfo :: "hid_interface \<Rightarrow> string \<Rightarrow> VaxeeDeviceInfo \<times> bool" where
  "queryDeviceInfo ifc path =
     (if NUL \<in> set path \<or> \<not> query_open_ok ifc then (zeroDeviceInfo, False)
      else
        case attributes ifc of
          None \<Rightarrow> (zeroDeviceInfo, False)
        | Some attr \<Rightarrow>
            let manu = hidGetString (manufacturer_string ifc);
                prod = hidGetString (product_string ifc)
            in (case queryCaps ifc of
                  Inl capErr \<Rightarrow>
                    (\<lparr>Path = path, VID = VendorID attr, PID = ProductID attr,
                      Manufacturer = manu, Product = prod,
                      UsagePage = 0, Usage = 0, FeatureLen = 0\<rparr>, True)
                | Inr cps \<Rightarrow>
                    (\<lparr>Path = path, VID = VendorID attr, PID = ProductID attr,
                      Manufacturer = manu, Product = prod,
                      UsagePage = caps_UsagePage cps, Usage = caps_Usage cps,
                      FeatureLen = caps_FeatureReportByteLength cps\<rparr>, True)))"

text \<open>
  The loop of \<^verbatim>\<open>EnumerateVaxeeDevices\<close> over the interface index, with \<open>out\<close> the slice
  built so far. A failure of \<^verbatim>\<open>SetupDiEnumDeviceInterfaces\<close> ends the loop whatever its
  error number (both branches of the source \<^verbatim>\<open>break\<close>); each \<^verbatim>\<open>continue\<close> goes on with
  the next index.
\<close>

fun enumLoop :: "enum_result list \<Rightarrow> VaxeeDeviceInfo list \<Rightarrow> VaxeeDeviceInfo list" where
  "enumLoop [] out = out"
| "enumLoop (EnumFailed errno # rest) out =
     (if errno = ERROR_NO_MORE_ITEMS then out else out)"
| "enumLoop (EnumOk ifc # rest) out =
     (if detail_required ifc = 0 then enumLoop rest out
      else if \<not> detail_ok ifc then enumLoop rest out
      else
        let path = utf16FromPtr (detail_DevicePath ifc)
        in if path = [] then enumLoop rest out
           else
             case queryDeviceInfo ifc path of
               (info, ok) \<Rightarrow>
                 if \<not> ok then enumLoop rest out
                 else
                   let m = ToLower (Manufacturer info);
                       p = ToLower (Product info)
                   in if Contains m vendorSubstring \<or> Contains p vendorSubstring
                      then enumLoop rest (out @ [info])
                      else enumLoop rest out)"

definition EnumerateVaxeeDevices :: "os \<Rightarrow> history \<Rightarrow> error + VaxeeDeviceInfo list" where
  "EnumerateVaxeeDevices os h =
     (case SetupDiGetClassDevsW os h of
        None \<Rightarrow> Inl ErrClassDevs
      | Some hDevInfo \<Rightarrow> Inr (enumLoop hDevInfo []))"

section \<open>Control-path selector\<close>

definition isKbdPath :: "string \<Rightarrow> bool" where
  "isKbdPath path = HasSuffix (ToLower path) kbdSuffix"

text \<open>The two loops that build \<open>order\<close>: first the paths without the suffix, then those with it.\<close>

fun appendNonKbd :: "VaxeeDeviceInfo list \<Rightarrow> VaxeeDeviceInfo list \<Rightarrow> VaxeeDeviceInfo list" where
  "appendNonKbd [] order = order"
| "appendNonKbd (d # ds) order =
     (if isKbdPath (Path d) then appendNonKbd ds order else appendNonKbd ds (order @ [d]))"

fun appendKbd :: "VaxeeDeviceInfo list \<Rightarrow> VaxeeDeviceInfo list \<Rightarrow> VaxeeDeviceInfo list" where
  "appendKbd [] order = order"
| "appendKbd (d # ds) order =
     (if isKbdPath (Path d) then appendKbd ds (order @ [d]) else appendKbd ds order)"

definition probeOrder :: "VaxeeDeviceInfo list \<Rightarrow> VaxeeDeviceInfo list" where
  "probeOrder ds = appendKbd ds (appendNonKbd ds [])"

text \<open>The length a candidate is probed with: its declared length, or 64 when that is 0.\<close>

definition probeLength :: "VaxeeDeviceInfo \<Rightarrow> int" where
  "probeLength d = (let flen = uint (FeatureLen d) in if flen \<le> 0 then 64 else flen)"

text \<open>The buffer a candidate is probed with: the report ID 0x0e, then zeros.\<close>

definition probeBuffer :: "VaxeeDeviceInfo \<Rightarrow> byte list" where
  "probeBuffer d = (replicate (nat (probeLength d)) 0)[0 := 0x0e]"

text \<open>The probing loop: the first candidate whose \<^verbatim>\<open>getFeature\<close> succeeds is returned.\<close>

fun probeLoop :: "os \<Rightarrow> history \<Rightarrow> VaxeeDeviceInfo list \<Rightarrow> (error + VaxeeDeviceInfo) \<times> history" where
  "probeLoop os h [] = (Inl ErrNoControl, h)"
| "probeLoop os h (d # rest) =
     (case getFeature os h (Path d) 0x0e (probeLength d) of
        (Inr _, h1) \<Rightarrow> (Inr d, h1)
      | (Inl _, h1) \<Rightarrow> probeLoop os h1 rest)"

definition SelectVaxeeControlPath :: "os \<Rightarrow> history \<Rightarrow> (error + VaxeeDeviceInfo) \<times> history" where
  "SelectVaxeeControlPath os h =
     (case EnumerateVaxeeDevices os h of
        Inl err \<Rightarrow> (Inl err, h)
      | Inr ds \<Rightarrow>
          if length ds = 0 then (Inl ErrNoDevice, h)
          else probeLoop os h (probeOrder ds))"

definition FindOneVaxeeDevice :: "os \<Rightarrow> history \<Rightarrow> (error + VaxeeDeviceInfo) \<times> history" where
  "FindOneVaxeeDevice os h = SelectVaxeeControlPath os h"

section \<open>Setting applier\<close>

text \<open>
  \<^verbatim>\<open>ApplyVaxeeSetting\<close>. On a failed resolution \<open>dev\<close> is the zero descriptor and the
  caller's path is kept. The rate is translated after the first report and the pause.
\<close>

definition ApplyVaxeeSetting :: "os \<Rightarrow> history \<Rightarrow> string \<Rightarrow> PerfMode \<Rightarrow> PollingRate \<Rightarrow> (error + unit) \<times> history" where
  "ApplyVaxeeSetting os h path perf poll =
     (case FindOneVaxeeDevice os h of
        (found, h0) \<Rightarrow>
          let dev = (case found of Inl _ \<Rightarrow> zeroDeviceInfo | Inr d \<Rightarrow> d);
              path = (if \<not> isl found \<and> Path dev \<noteq> [] then Path dev else path);
              flen = uint (FeatureLen dev);
              flen = (if flen \<le> 0 then 64 else flen)
          in (case sendFeatureReport os h0 path (buildReportSized flen 0x08 perf) of
                (Inl err, h1) \<Rightarrow> (Inl (ErrPerfReport err), h1)
              | (Inr _, h1) \<Rightarrow>
                  let h2 = h1 @ [EvSleep 25]
                  in (case pollingToYY poll of
                        Inl err \<Rightarrow> (Inl err, h2)
                      | Inr yy \<Rightarrow>
                          (case sendFeatureReport os h2 path (buildReportSized flen 0x07 yy) of
                             (Inl err, h3) \<Rightarrow> (Inl (ErrPollReport err), h3)
                           | (Inr _, h3) \<Rightarrow> (Inr (), h3)))))"

text \<open>
  The two numbered steps of \<^verbatim>\<open>ApplyVaxeeSetting\<close>, as a function of the path and the length
  the first lines have settled on. It restates the second half of the definition above
  and serves to state lemmas about it.
\<close>

definition applyReports :: "os \<Rightarrow> history \<Rightarrow> string \<Rightarrow> int \<Rightarrow> PerfMode \<Rightarrow> PollingRate \<Rightarrow> (error + unit) \<times> history" where
  "applyReports os h0 path flen perf poll =
     (case sendFeatureReport os h0 path (buildReportSized flen 0x08 perf) of
        (Inl err, h1) \<Rightarrow> (Inl (ErrPerfReport err), h1)
      | (Inr _, h1) \<Rightarrow>
          let h2 = h1 @ [EvSleep 25]
          in (case pollingToYY poll of
                Inl err \<Rightarrow> (Inl err, h2)
              | Inr yy \<Rightarrow>
                  (case sendFeatureReport os h2 path (buildReportSized flen 0x07 yy) of
                     (Inl err, h3) \<Rightarrow> (Inl (ErrPollReport err), h3)
                   | (Inr _, h3) \<Rightarrow> (Inr (), h3))))"

section \<open>Reading a history\<close>

text \<open>
  The reports handed to \<^verbatim>\<open>HidD_SetFeature\<close> (whether or not the call succeeded), the paths
  opened with read-write access (the first system call of every probe and of every send),
  the paths on which \<^verbatim>\<open>HidD_GetFeature\<close> succeeded, and the path an event is about.
\<close>

fun sentReports :: "history \<Rightarrow> (string \<times> byte list) list" where
  "sentReports [] = []"
| "sentReports (EvSetFeature path report ok # es) = (path, report) # sentReports es"
| "sentReports (e # es) = sentReports es"

fun openedPaths :: "history \<Rightarrow> string list" where
  "openedPaths [] = []"
| "openedPaths (EvCreateFile path ReadWrite ok # es) = path # openedPaths es"
| "openedPaths (e # es) = openedPaths es"

fun answeredPaths :: "history \<Rightarrow> string list" where
  "answeredPaths [] = []"
| "answeredPaths (EvGetFeature path buf True # es) = path # answeredPaths es"
| "answeredPaths (e # es) = answeredPaths es"

text \<open>The events an operation added to the history \<open>h\<close> it started from.\<close>

definition newEvents :: "history \<Rightarrow> history \<Rightarrow> history" where
  "newEvents h h' = drop (length h) h'"

text \<open>What one call of \<open>openHIDPath\<close> adds: one or two \<^verbatim>\<open>CreateFileW\<close> events on the path.\<close>

definition opens :: "string \<Rightarrow> history \<Rightarrow> bool" where
  "opens path es \<longleftrightarrow>
     (\<exists>ok. es = [EvCreateFile path ReadWrite ok]) \<or>
     (\<exists>ok. es = [EvCreateFile path ReadWrite False, EvCreateFile path WriteOnly ok])"

fun eventPath :: "event \<Rightarrow> string option" where
  "eventPath (EvCreateFile path a ok) = Some path"
| "eventPath (EvGetFeature path buf ok) = Some path"
| "eventPath (EvSetFeature path report ok) = Some path"
| "eventPath (EvCloseHandle path) = Some path"
| "eventPath (EvSleep ms) = None"

section \<open>An example system\<close>

text \<open>
  A system with six HID interfaces, in the order the enumeration meets them: the
  keyboard collection of the mouse, a device of another vendor, a collection that cannot
  be opened, a mouse collection whose manufacturer and capability queries fail, and two
  vendor collections, the first with a feature-report length given as a parameter. Only
  the two vendor collections answer \<^verbatim>\<open>HidD_GetFeature\<close>; every open and every
  \<^verbatim>\<open>HidD_SetFeature\<close> succeeds.
\<close>

definition pathMouse :: string where
  "pathMouse = ''hid#vid_3057&pid_1001&col01''"

definition pathVendor :: string where
  "pathVendor = ''hid#vid_3057&pid_1001&col02''"

definition pathVendor2 :: string where
  "pathVendor2 = ''hid#vid_3057&pid_1001&col03''"

definition pathKbd :: string where
  "pathKbd = ''hid#vid_3057&pid_1001&mi_01'' @ [CHR 0x5C] @ ''KBD''"

definition pathOther :: string where
  "pathOther = ''hid#vid_046d&pid_c08b''"

definition pathLocked :: string where
  "pathLocked = ''hid#vid_3057&pid_1001&col04''"

definition demoInterface :: "string \<Rightarrow> string option \<Rightarrow> string option \<Rightarrow> uint16 option \<Rightarrow> hid_interface" where
  "demoInterface path manu product flen =
     \<lparr>detail_required = 128, detail_ok = True, detail_DevicePath = path @ [NUL],
      query_open_ok = True,
      attributes = Some \<lparr>VendorID = 0x3057, ProductID = 0x1001\<rparr>,
      manufacturer_string = manu, product_string = product,
      preparsed_ok = (flen \<noteq> None), caps_status = HIDP_STATUS_SUCCESS,
      caps = \<lparr>caps_Usage = 0x01, caps_UsagePage = 0xff00,
               caps_FeatureReportByteLength = (case flen of None \<Rightarrow> 0 | Some n \<Rightarrow> n)\<rparr>\<rparr>"

definition otherInterface :: hid_interface where
  "otherInterface = demoInterface pathOther (Some ''Logitech'') (Some ''G Pro'') (Some 20)"

definition lockedInterface :: hid_interface where
  "lockedInterface =
     (demoInterface pathLocked (Some ''VAXEE'') (Some ''VAXEE Mouse'') (Some 20))
       \<lparr>query_open_ok := False\<rparr>"

definition mouseInterface :: hid_interface where
  "mouseInterface = demoInterface pathMouse None (Some ''Vaxee Mouse'') None"

definition demoInterfaces :: "uint16 \<Rightarrow> enum_result list" where
  "demoInterfaces flen =
     [EnumOk (demoInterface pathKbd (Some ''VAXEE'') (Some ''VAXEE Mouse'') (Some 9)),
      EnumOk otherInterface,
      EnumOk lockedInterface,
      EnumOk mouseInterface,
      EnumOk (demoInterface pathVendor (Some ''VAXEE'') (Some ''VAXEE Mouse'') (Some flen)),
      EnumOk (demoInterface pathVendor2 (Some ''VAXEE'') None (Some 64))]"

definition demoOs :: "uint16 \<Rightarrow> os" where
  "demoOs flen =
     \<lparr>SetupDiGetClassDevsW = (\<lambda>h. Some (demoInterfaces flen)),
      CreateFileW = (\<lambda>h path a. True),
      HidD_GetFeature = (\<lambda>h path buf. if path = pathVendor \<or> path = pathVendor2 then Some buf else None),
      HidD_SetFeature = (\<lambda>h path report. True)\<rparr>"

text \<open>The descriptors the enumeration builds for the four vendor collections it keeps.\<close>

definition kbdInfo :: VaxeeDeviceInfo where
  "kbdInfo = \<lparr>Path = pathKbd, VID = 0x3057, PID = 0x1001, Manufacturer = ''VAXEE'',
     Product = ''VAXEE Mouse'', UsagePage = 0xff00, Usage = 0x01, FeatureLen = 9\<rparr>"

definition mouseInfo :: VaxeeDeviceInfo where
  "mouseInfo = \<lparr>Path = pathMouse, VID = 0x3057, PID = 0x1001, Manufacturer = [],
     Product = ''Vaxee Mouse'', UsagePage = 0, Usage = 0, FeatureLen = 0\<rparr>"

definition vendorInfo :: "uint16 \<Rightarrow> VaxeeDeviceInfo" where
  "vendorInfo flen = \<lparr>Path = pathVendor, VID = 0x3057, PID = 0x1001, Manufacturer = ''VAXEE'',
     Product = ''VAXEE Mouse'', UsagePage = 0xff00, Usage = 0x01, FeatureLen = flen\<rparr>"

definition vendor2Info :: VaxeeDeviceInfo where
  "vendor2Info = \<lparr>Path = pathVendor2, VID = 0x3057, PID = 0x1001, Manufacturer = ''VAXEE'',
     Product = [], UsagePage = 0xff00, Usage = 0x01, FeatureLen = 64\<rparr>"

text \<open>A system whose only interface belongs to another vendor.\<close>

definition foreignOs :: os where
  "foreignOs = (demoOs 20)\<lparr>SetupDiGetClassDevsW := (\<lambda>h. Some [EnumOk otherInterface])\<rparr>"

text \<open>
  A system whose only interface is a vendor collection on which \<^verbatim>\<open>HidD_GetPreparsedData\<close>
  succeeds and \<^verbatim>\<open>HidP_GetCaps\<close> answers \<^verbatim>\<open>HIDP_STATUS_INVALID_PREPARSED_DATA\<close>, leaving
  values in the capability block; and the descriptor the enumeration builds for it.
\<close>

definition capsFailInterface :: hid_interface where
  "capsFailInterface =
     (demoInterface pathVendor (Some ''VAXEE'') (Some ''VAXEE Mouse'') (Some 20))
       \<lparr>caps_status := 0xc0110001\<rparr>"

definition capsFailInfo :: VaxeeDeviceInfo where
  "capsFailInfo = \<lparr>Path = pathVendor, VID = 0x3057, PID = 0x1001, Manufacturer = ''VAXEE'',
     Product = ''VAXEE Mouse'', UsagePage = 0, Usage = 0, FeatureLen = 0\<rparr>"

definition capsFailOs :: os where
  "capsFailOs = (demoOs 20)\<lparr>SetupDiGetClassDevsW := (\<lambda>h. Some [EnumOk capsFailInterface])\<rparr>"

text \<open>The same system with no interface present, and with a failing device-class query.\<close>

definition emptyOs :: os where
  "emptyOs = (demoOs 20)\<lparr>SetupDiGetClassDevsW := (\<lambda>h. Some [])\<rparr>"

definition brokenOs :: os where
  "brokenOs = (demoOs 20)\<lparr>SetupDiGetClassDevsW := (\<lambda>h. None)\<rparr>"

text \<open>The same system when no collection answers \<^verbatim>\<open>HidD_GetFeature\<close>.\<close>

definition silentOs :: os where
  "silentOs = (demoOs 20)\<lparr>HidD_GetFeature := (\<lambda>h path buf. None)\<rparr>"

text \<open>Whether \<^verbatim>\<open>SetupDiEnumDeviceInterfaces\<close> succeeded at an index.\<close>

fun isEnumOk :: "enum_result \<Rightarrow> bool" where
  "isEnumOk (EnumOk ifc) = True"
| "isEnumOk (EnumFailed errno) = False"

section \<open>The report codec's properties\<close>

lemma buildReportSized_eq:
  "buildReportSized n cmd val =
     [0x0e, 0xa5, cmd, 0x02, 0x01, val] @ replicate (nat (max n 6) - 6) 0"
proof -
  define k where "k = nat (max n 6) - 6"
  have k: "nat (if n < 6 then 6 else n) = 6 + k"
    unfolding k_def by (cases "n < 6") auto
  have "replicate (6 + k) (0 :: byte) = [0, 0, 0, 0, 0, 0] @ replicate k 0"
    by (simp add: replicate_add [symmetric] numeral_eq_Suc)
  then show ?thesis
    unfolding k_def [symmetric] by (simp add: buildReportSized_def Let_def k del: replicate_add)
qed

lemma buildReportSized_length: "int (length (buildReportSized n cmd val)) = max n 6"
  by (simp add: buildReportSized_eq max_def)

lemma buildReportSized_tail:
  assumes "5 < i" "i < length (buildReportSized n cmd val)"
  shows "buildReportSized n cmd val ! i = 0"
proof -
  define j where "j = i - 6"
  have i: "i = 6 + j" using assms(1) by (simp add: j_def)
  have "j < nat (max n 6) - 6"
    using assms(2) unfolding buildReportSized_eq i by simp
  then show ?thesis
    unfolding buildReportSized_eq i by (simp add: nth_append)
qed

text \<open>
  Claim C2, as stated, asks that bytes 1 to 4 of the report be the same for every command.
  Byte 2 is the command byte: the reports for the commands 0x08 and 0x07 differ there.
\<close>

theorem buildReportSized_header_counterexample:
  "take 4 (drop 1 (buildReportSized 6 0x08 0x01)) \<noteq> take 4 (drop 1 (buildReportSized 6 0x07 0x01))"
  by (simp add: buildReportSized_eq)

text \<open>
  Claim C2, amended: for every length, command and value the buffer
  \<open>buildReportSized n cmd val\<close> has length \<open>max n 6\<close>; byte 0 is the report ID 0x0e, bytes
  1, 3 and 4 are the constants 0xa5, 0x02, 0x01, byte 2 is the command, byte 5 is the
  value, and every byte beyond index 5 is zero.
\<close>

theorem buildReportSized_layout:
  "int (length (buildReportSized n cmd val)) = max n 6
   \<and> buildReportSized n cmd val ! 0 = 0x0e
   \<and> buildReportSized n cmd val ! 1 = 0xa5
   \<and> buildReportSized n cmd val ! 2 = cmd
   \<and> buildReportSized n cmd val ! 3 = 0x02
   \<and> buildReportSized n cmd val ! 4 = 0x01
   \<and> buildReportSized n cmd val ! 5 = val
   \<and> (\<forall>i. 5 < i \<and> i < length (buildReportSized n cmd val) \<longrightarrow> buildReportSized n cmd val ! i = 0)"
proof -
  have head: "buildReportSized n cmd val ! 0 = 0x0e" "buildReportSized n cmd val ! 1 = 0xa5"
    "buildReportSized n cmd val ! 2 = cmd" "buildReportSized n cmd val ! 3 = 0x02"
    "buildReportSized n cmd val ! 4 = 0x01" "buildReportSized n cmd val ! 5 = val"
    by (simp_all add: buildReportSized_eq)
  show ?thesis
    using buildReportSized_length head buildReportSized_tail by blast
qed

theorem buildReportSized_layout_witness:
  "(5 :: nat) < 7 \<and> 7 < length (buildReportSized 8 0x07 0x02) \<and> buildReportSized 8 0x07 0x02 ! 7 = 0
   \<and> buildReportSized 8 0x07 0x02 ! 2 = 0x07 \<and> int (length (buildReportSized 3 0x07 0x02)) = 6"
proof -
  have len: "7 < length (buildReportSized 8 0x07 0x02)"
    by (simp add: buildReportSized_eq)
  from buildReportSized_layout [of 8 "0x07" "0x02"] len buildReportSized_layout [of 3 "0x07" "0x02"]
  show ?thesis by simp
qed

text \<open>
  Claim C4: \<open>pollingToYY\<close> maps 1000 to 0x02, 2000 to 0x03 and 4000 to 0x04; on every other
  integer it fails with the unsupported-rate error, so it succeeds exactly on the three
  rates.
\<close>

theorem pollingToYY_table:
  "pollingToYY 1000 = Inr 0x02 \<and> pollingToYY 2000 = Inr 0x03 \<and> pollingToYY 4000 = Inr 0x04
   \<and> (p \<notin> {1000, 2000, 4000} \<longrightarrow> pollingToYY p = Inl (ErrUnsupportedRate p))
   \<and> ((\<exists>yy. pollingToYY p = Inr yy) \<longleftrightarrow> p \<in> {1000, 2000, 4000})"
  by (simp add: pollingToYY_def Poll1000_def Poll2000_def Poll4000_def)

theorem pollingToYY_table_witness:
  "(500 :: int) \<notin> {1000, 2000, 4000} \<and> pollingToYY 500 = Inl (ErrUnsupportedRate 500)
   \<and> pollingToYY 2000 = Inr 0x03"
  using pollingToYY_table [of 500] by simp

section \<open>The enumerator's properties\<close>

lemma enumLoop_step:
  "enumLoop (EnumOk ifc # rest) out = enumLoop rest (out @ enumLoop [EnumOk ifc] [])"
  by (simp add: Let_def split: prod.splits)

lemma enumLoop_out: "enumLoop items out = out @ enumLoop items []"
proof (induction items arbitrary: out)
  case Nil
  show ?case by simp
next
  case (Cons x xs)
  show ?case
  proof (cases x)
    case (EnumFailed errno)
    then show ?thesis by simp
  next
    case (EnumOk ifc)
    have "enumLoop (x # xs) out = enumLoop xs (out @ enumLoop [EnumOk ifc] [])"
      unfolding EnumOk by (rule enumLoop_step)
    also have "\<dots> = (out @ enumLoop [EnumOk ifc] []) @ enumLoop xs []"
      by (rule Cons.IH)
    also have "\<dots> = out @ (([] @ enumLoop [EnumOk ifc] []) @ enumLoop xs [])"
      by simp
    also have "\<dots> = out @ enumLoop xs ([] @ enumLoop [EnumOk ifc] [])"
      by (simp only: Cons.IH [symmetric])
    also have "\<dots> = out @ enumLoop (x # xs) []"
      unfolding EnumOk by (simp only: enumLoop_step [symmetric])
    finally show ?thesis .
  qed
qed

lemma enumLoop_Cons:
  "enumLoop (EnumOk ifc # rest) [] = enumLoop [EnumOk ifc] [] @ enumLoop rest []"
proof -
  have "enumLoop (EnumOk ifc # rest) [] = enumLoop rest ([] @ enumLoop [EnumOk ifc] [])"
    by (rule enumLoop_step)
  also have "\<dots> = ([] @ enumLoop [EnumOk ifc] []) @ enumLoop rest []"
    by (rule enumLoop_out)
  finally show ?thesis by simp
qed

lemma enumLoop_append:
  "list_all isEnumOk pre \<Longrightarrow> enumLoop (pre @ post) [] = enumLoop pre [] @ enumLoop post []"
proof (induction pre)
  case Nil
  show ?case by simp
next
  case (Cons x xs)
  then obtain ifc where x: "x = EnumOk ifc" by (cases x) auto
  from Cons have IH: "enumLoop (xs @ post) [] = enumLoop xs [] @ enumLoop post []" by simp
  have "enumLoop ((x # xs) @ post) [] = enumLoop [EnumOk ifc] [] @ enumLoop (xs @ post) []"
    unfolding x append_Cons by (rule enumLoop_Cons)
  also have "\<dots> = (enumLoop [EnumOk ifc] [] @ enumLoop xs []) @ enumLoop post []"
    unfolding IH by simp
  also have "enumLoop [EnumOk ifc] [] @ enumLoop xs [] = enumLoop (x # xs) []"
    unfolding x by (rule enumLoop_Cons [symmetric])
  finally show ?case .
qed

text \<open>One interface contributes at most one descriptor.\<close>

lemma enumLoop_single_cases:
  "enumLoop [EnumOk ifc] [] = [] \<or>
   (enumLoop [EnumOk ifc] [] = [fst (queryDeviceInfo ifc (utf16FromPtr (detail_DevicePath ifc)))]
    \<and> snd (queryDeviceInfo ifc (utf16FromPtr (detail_DevicePath ifc)))
    \<and> utf16FromPtr (detail_DevicePath ifc) \<noteq> []
    \<and> (Contains (ToLower (Manufacturer (fst (queryDeviceInfo ifc (utf16FromPtr (detail_DevicePath ifc)))))) vendorSubstring
       \<or> Contains (ToLower (Product (fst (queryDeviceInfo ifc (utf16FromPtr (detail_DevicePath ifc)))))) vendorSubstring))"
  by (simp add: Let_def split: prod.splits)

declare enumLoop.simps(3) [simp del]

lemma enumLoop_single_length: "length (enumLoop [EnumOk ifc] []) \<le> 1"
  using enumLoop_single_cases [of ifc] by auto

lemma utf16FromPtr_no_NUL: "NUL \<notin> set (utf16FromPtr units)"
  unfolding utf16FromPtr_def by (auto dest: set_takeWhileD)

lemma queryDeviceInfo_ok:
  assumes "queryDeviceInfo ifc path = (info, True)"
  shows "Path info = path" "query_open_ok ifc" "attributes ifc \<noteq> None"
    "Manufacturer info = hidGetString (manufacturer_string ifc)"
    "Product info = hidGetString (product_string ifc)"
    "isl (queryCaps ifc) \<Longrightarrow> UsagePage info = 0 \<and> Usage info = 0 \<and> FeatureLen info = 0"
    "queryCaps ifc = Inr cps \<Longrightarrow> UsagePage info = caps_UsagePage cps \<and> Usage info = caps_Usage cps
       \<and> FeatureLen info = caps_FeatureReportByteLength cps"
  using assms
  by (auto simp: queryDeviceInfo_def Let_def split: if_splits option.splits sum.splits)

lemma enumLoop_single_member:
  assumes "d \<in> set (enumLoop [EnumOk ifc] [])"
  shows "queryDeviceInfo ifc (utf16FromPtr (detail_DevicePath ifc)) = (d, True)"
    and "Path d \<noteq> []" and "NUL \<notin> set (Path d)"
    and "Contains (ToLower (Manufacturer d)) vendorSubstring \<or> Contains (ToLower (Product d)) vendorSubstring"
proof -
  let ?path = "utf16FromPtr (detail_DevicePath ifc)"
  from assms enumLoop_single_cases [of ifc]
  have d: "d = fst (queryDeviceInfo ifc ?path)" and ok: "snd (queryDeviceInfo ifc ?path)"
    and ne: "?path \<noteq> []"
    and m: "Contains (ToLower (Manufacturer d)) vendorSubstring \<or> Contains (ToLower (Product d)) vendorSubstring"
    by auto
  show q: "queryDeviceInfo ifc ?path = (d, True)"
    using d ok by (cases "queryDeviceInfo ifc ?path") simp
  from queryDeviceInfo_ok(1) [OF q] have "Path d = ?path" .
  then show "Path d \<noteq> []" "NUL \<notin> set (Path d)"
    using ne utf16FromPtr_no_NUL by simp_all
  show "Contains (ToLower (Manufacturer d)) vendorSubstring \<or> Contains (ToLower (Product d)) vendorSubstring"
    by (rule m)
qed

lemma enumLoop_member:
  "d \<in> set (enumLoop items []) \<Longrightarrow> \<exists>ifc. EnumOk ifc \<in> set items \<and> d \<in> set (enumLoop [EnumOk ifc] [])"
proof (induction items)
  case Nil
  then show ?case by simp
next
  case (Cons x xs)
  show ?case
  proof (cases x)
    case (EnumFailed errno)
    with Cons.prems show ?thesis by simp
  next
    case (EnumOk ifc)
    from Cons.prems have "d \<in> set (enumLoop [EnumOk ifc] []) \<or> d \<in> set (enumLoop xs [])"
      unfolding EnumOk enumLoop_Cons [of ifc xs] by simp
    then show ?thesis
      using Cons.IH EnumOk by auto
  qed
qed


lemma queryDeviceInfo_fail:
  "\<not> query_open_ok ifc \<or> attributes ifc = None \<Longrightarrow> \<not> snd (queryDeviceInfo ifc path)"
  by (auto simp: queryDeviceInfo_def)

lemma enumLoop_single_skipped:
  assumes "\<not> query_open_ok ifc \<or> attributes ifc = None"
  shows "enumLoop [EnumOk ifc] [] = []"
  using enumLoop_single_cases [of ifc] queryDeviceInfo_fail [OF assms]
  by blast

lemma enumLoop_single_degraded:
  assumes "d \<in> set (enumLoop [EnumOk ifc] [])"
  shows "manufacturer_string ifc = None \<longrightarrow> Manufacturer d = []"
    and "product_string ifc = None \<longrightarrow> Product d = []"
    and "isl (queryCaps ifc) \<longrightarrow> UsagePage d = 0 \<and> Usage d = 0 \<and> FeatureLen d = 0"
  using queryDeviceInfo_ok [OF enumLoop_single_member(1) [OF assms]]
  by (simp_all add: hidGetString_def)

lemma queryCaps_isl:
  "isl (queryCaps ifc) \<longleftrightarrow> \<not> preparsed_ok ifc \<or> caps_status ifc \<noteq> HIDP_STATUS_SUCCESS"
  by (simp add: queryCaps_def)

lemma queryCaps_Inr:
  "preparsed_ok ifc \<and> caps_status ifc = HIDP_STATUS_SUCCESS \<Longrightarrow> queryCaps ifc = Inr (caps ifc)"
  by (simp add: queryCaps_def)

lemma enumLoop_single_caps:
  assumes "d \<in> set (enumLoop [EnumOk ifc] [])"
  shows "\<not> preparsed_ok ifc \<or> caps_status ifc \<noteq> HIDP_STATUS_SUCCESS \<longrightarrow>
           UsagePage d = 0 \<and> Usage d = 0 \<and> FeatureLen d = 0"
    and "preparsed_ok ifc \<and> caps_status ifc = HIDP_STATUS_SUCCESS \<longrightarrow>
           UsagePage d = caps_UsagePage (caps ifc) \<and> Usage d = caps_Usage (caps ifc)
           \<and> FeatureLen d = caps_FeatureReportByteLength (caps ifc)"
proof -
  note q = queryDeviceInfo_ok [OF enumLoop_single_member(1) [OF assms]]
  show "\<not> preparsed_ok ifc \<or> caps_status ifc \<noteq> HIDP_STATUS_SUCCESS \<longrightarrow>
           UsagePage d = 0 \<and> Usage d = 0 \<and> FeatureLen d = 0"
    using q(6) by (simp only: queryCaps_isl) blast
  show "preparsed_ok ifc \<and> caps_status ifc = HIDP_STATUS_SUCCESS \<longrightarrow>
           UsagePage d = caps_UsagePage (caps ifc) \<and> Usage d = caps_Usage (caps ifc)
           \<and> FeatureLen d = caps_FeatureReportByteLength (caps ifc)"
    using q(7) [OF queryCaps_Inr] by blast
qed

text \<open>
  A failing string or capability query does not make the loop skip the interface: when
  the path is read and opened, the attributes are read and one of the two strings, as
  answered, carries the vendor substring, the interface gives one descriptor.
\<close>

lemma enumLoop_single_kept:
  assumes "detail_required ifc \<noteq> 0" "detail_ok ifc" "utf16FromPtr (detail_DevicePath ifc) \<noteq> []"
    and "query_open_ok ifc" "attributes ifc \<noteq> None"
    and "Contains (ToLower (hidGetString (manufacturer_string ifc))) vendorSubstring
         \<or> Contains (ToLower (hidGetString (product_string ifc))) vendorSubstring"
  shows "length (enumLoop [EnumOk ifc] []) = 1"
proof -
  let ?path = "utf16FromPtr (detail_DevicePath ifc)"
  obtain info ok where q: "queryDeviceInfo ifc ?path = (info, ok)"
    by (cases "queryDeviceInfo ifc ?path")
  have ok: "ok"
    using q assms(4,5) utf16FromPtr_no_NUL [of "detail_DevicePath ifc"]
    by (auto simp: queryDeviceInfo_def Let_def split: option.splits sum.splits)
  note i = queryDeviceInfo_ok(4,5) [OF q [unfolded eqTrueI [OF ok]]]
  show ?thesis
    using assms(1,2,3,6) q ok i by (simp add: enumLoop.simps(3) Let_def)
qed

lemma enumLoop_no_vendor:
  assumes "\<forall>ifc. EnumOk ifc \<in> set items \<longrightarrow>
             \<not> Contains (ToLower (hidGetString (manufacturer_string ifc))) vendorSubstring \<and>
             \<not> Contains (ToLower (hidGetString (product_string ifc))) vendorSubstring"
  shows "enumLoop items [] = []"
proof (rule ccontr)
  assume "enumLoop items [] \<noteq> []"
  then obtain d where "d \<in> set (enumLoop items [])"
    by (cases "enumLoop items []") auto
  then obtain ifc where ifc: "EnumOk ifc \<in> set items" and d: "d \<in> set (enumLoop [EnumOk ifc] [])"
    using enumLoop_member by blast
  note q = queryDeviceInfo_ok [OF enumLoop_single_member(1) [OF d]]
  from enumLoop_single_member(4) [OF d] assms ifc show False
    unfolding q(4) q(5) by blast
qed

lemma sublist_map_obtain:
  assumes "sublist xs (map f ys)"
  shows "\<exists>zs. map f zs = xs \<and> sublist zs ys"
proof -
  from assms obtain ps ss where "map f ys = ps @ (xs @ ss)"
    by (auto simp: sublist_def)
  then have "\<exists>us vs. ys = us @ vs \<and> ps = map f us \<and> xs @ ss = map f vs"
    by (simp only: map_eq_append_conv)
  then obtain us vs where ys: "ys = us @ vs" and vs: "map f vs = xs @ ss"
    by metis
  from vs have "\<exists>zs ws. vs = zs @ ws \<and> xs = map f zs \<and> ss = map f ws"
    by (simp only: map_eq_append_conv)
  then obtain zs ws where "vs = zs @ ws" and zs: "map f zs = xs"
    by metis
  with ys have "ys = us @ zs @ ws" by simp
  then have "sublist zs ys"
    unfolding sublist_def by blast
  with zs show ?thesis by blast
qed

lemma demo_enumerate:
  "EnumerateVaxeeDevices (demoOs 20) [] = Inr [kbdInfo, mouseInfo, vendorInfo 20, vendor2Info]"
  by code_simp

text \<open>
  Claim C8: \<open>EnumerateVaxeeDevices\<close> returns an error exactly when the device-class query
  \<^verbatim>\<open>SetupDiGetClassDevsW\<close> fails. A failure on one interface never aborts the enumeration:
  the result is what the interfaces before it give, then what this interface gives (at
  most one descriptor), then what the interfaces after it give. When the open or the
  attribute query fails the interface gives nothing; a kept descriptor has an empty
  manufacturer or product string when that string query failed, and zero usage page, usage
  and feature length when the capability query failed, that is when
  \<^verbatim>\<open>HidD_GetPreparsedData\<close> fails or \<^verbatim>\<open>HidP_GetCaps\<close> answers another status than
  \<^verbatim>\<open>HIDP_STATUS_SUCCESS\<close> (when both succeed the three fields are those of the capability
  block). Neither a string failure nor a capability failure makes the interface skipped:
  when its path is read and opened, its attributes are read and one of the two strings,
  as answered, carries the vendor substring, it gives exactly one descriptor. When no
  interface carries the vendor substring the result is the empty list, with no error.
\<close>

theorem EnumerateVaxeeDevices_failures:
  "(isl (EnumerateVaxeeDevices os h) \<longleftrightarrow> SetupDiGetClassDevsW os h = None)
   \<and> (SetupDiGetClassDevsW os h = Some (pre @ EnumOk ifc # post) \<and> list_all isEnumOk pre \<longrightarrow>
        EnumerateVaxeeDevices os h =
          Inr (enumLoop pre [] @ enumLoop [EnumOk ifc] [] @ enumLoop post [])
        \<and> length (enumLoop [EnumOk ifc] []) \<le> 1
        \<and> (\<not> query_open_ok ifc \<or> attributes ifc = None \<longrightarrow> enumLoop [EnumOk ifc] [] = [])
        \<and> (\<forall>d \<in> set (enumLoop [EnumOk ifc] []).
              (manufacturer_string ifc = None \<longrightarrow> Manufacturer d = [])
              \<and> (product_string ifc = None \<longrightarrow> Product d = [])
              \<and> (\<not> preparsed_ok ifc \<or> caps_status ifc \<noteq> HIDP_STATUS_SUCCESS \<longrightarrow>
                    UsagePage d = 0 \<and> Usage d = 0 \<and> FeatureLen d = 0)
              \<and> (preparsed_ok ifc \<and> caps_status ifc = HIDP_STATUS_SUCCESS \<longrightarrow>
                    UsagePage d = caps_UsagePage (caps ifc) \<and> Usage d = caps_Usage (caps ifc)
                    \<and> FeatureLen d = caps_FeatureReportByteLength (caps ifc)))
        \<and> (detail_required ifc \<noteq> 0 \<and> detail_ok ifc \<and> utf16FromPtr (detail_DevicePath ifc) \<noteq> []
             \<and> query_open_ok ifc \<and> attributes ifc \<noteq> None
             \<and> (Contains (ToLower (hidGetString (manufacturer_string ifc))) vendorSubstring
                \<or> Contains (ToLower (hidGetString (product_string ifc))) vendorSubstring)
             \<longrightarrow> length (enumLoop [EnumOk ifc] []) = 1))
   \<and> (SetupDiGetClassDevsW os h = Some items
        \<and> (\<forall>ifc. EnumOk ifc \<in> set items \<longrightarrow>
              \<not> Contains (ToLower (hidGetString (manufacturer_string ifc))) vendorSubstring \<and>
              \<not> Contains (ToLower (hidGetString (product_string ifc))) vendorSubstring)
        \<longrightarrow> EnumerateVaxeeDevices os h = Inr [])"
proof (intro conjI impI)
  show "isl (EnumerateVaxeeDevices os h) \<longleftrightarrow> SetupDiGetClassDevsW os h = None"
    by (simp add: EnumerateVaxeeDevices_def split: option.splits)
next
  assume a: "SetupDiGetClassDevsW os h = Some (pre @ EnumOk ifc # post) \<and> list_all isEnumOk pre"
  have "enumLoop (pre @ EnumOk ifc # post) [] = enumLoop pre [] @ enumLoop (EnumOk ifc # post) []"
    using a by (intro enumLoop_append) simp
  also have "enumLoop (EnumOk ifc # post) [] = enumLoop [EnumOk ifc] [] @ enumLoop post []"
    by (rule enumLoop_Cons)
  finally show "EnumerateVaxeeDevices os h =
      Inr (enumLoop pre [] @ enumLoop [EnumOk ifc] [] @ enumLoop post [])"
    using a by (simp add: EnumerateVaxeeDevices_def)
next
  show "length (enumLoop [EnumOk ifc] []) \<le> 1"
    by (rule enumLoop_single_length)
next
  assume "\<not> query_open_ok ifc \<or> attributes ifc = None"
  then show "enumLoop [EnumOk ifc] [] = []"
    by (rule enumLoop_single_skipped)
next
  show "\<forall>d \<in> set (enumLoop [EnumOk ifc] []).
          (manufacturer_string ifc = None \<longrightarrow> Manufacturer d = [])
          \<and> (product_string ifc = None \<longrightarrow> Product d = [])
          \<and> (\<not> preparsed_ok ifc \<or> caps_status ifc \<noteq> HIDP_STATUS_SUCCESS \<longrightarrow>
                UsagePage d = 0 \<and> Usage d = 0 \<and> FeatureLen d = 0)
          \<and> (preparsed_ok ifc \<and> caps_status ifc = HIDP_STATUS_SUCCESS \<longrightarrow>
                UsagePage d = caps_UsagePage (caps ifc) \<and> Usage d = caps_Usage (caps ifc)
                \<and> FeatureLen d = caps_FeatureReportByteLength (caps ifc))"
  proof
    fix d
    assume d: "d \<in> set (enumLoop [EnumOk ifc] [])"
    from enumLoop_single_degraded(1,2) [OF d] enumLoop_single_caps [OF d]
    show "(manufacturer_string ifc = None \<longrightarrow> Manufacturer d = [])
          \<and> (product_string ifc = None \<longrightarrow> Product d = [])
          \<and> (\<not> preparsed_ok ifc \<or> caps_status ifc \<noteq> HIDP_STATUS_SUCCESS \<longrightarrow>
                UsagePage d = 0 \<and> Usage d = 0 \<and> FeatureLen d = 0)
          \<and> (preparsed_ok ifc \<and> caps_status ifc = HIDP_STATUS_SUCCESS \<longrightarrow>
                UsagePage d = caps_UsagePage (caps ifc) \<and> Usage d = caps_Usage (caps ifc)
                \<and> FeatureLen d = caps_FeatureReportByteLength (caps ifc))"
      by (intro conjI)
  qed
next
  assume "detail_required ifc \<noteq> 0 \<and> detail_ok ifc \<and> utf16FromPtr (detail_DevicePath ifc) \<noteq> []
             \<and> query_open_ok ifc \<and> attributes ifc \<noteq> None
             \<and> (Contains (ToLower (hidGetString (manufacturer_string ifc))) vendorSubstring
                \<or> Contains (ToLower (hidGetString (product_string ifc))) vendorSubstring)"
  then show "length (enumLoop [EnumOk ifc] []) = 1"
    by (intro enumLoop_single_kept) simp_all
next
  assume a: "SetupDiGetClassDevsW os h = Some items
        \<and> (\<forall>ifc. EnumOk ifc \<in> set items \<longrightarrow>
              \<not> Contains (ToLower (hidGetString (manufacturer_string ifc))) vendorSubstring \<and>
              \<not> Contains (ToLower (hidGetString (product_string ifc))) vendorSubstring)"
  then have "enumLoop items [] = []"
    by (intro enumLoop_no_vendor) blast
  then show "EnumerateVaxeeDevices os h = Inr []"
    using a by (simp add: EnumerateVaxeeDevices_def)
qed

theorem EnumerateVaxeeDevices_failures_witness:
  "SetupDiGetClassDevsW (demoOs 20) [] =
      Some (take 2 (demoInterfaces 20) @ EnumOk lockedInterface # drop 3 (demoInterfaces 20))
   \<and> list_all isEnumOk (take 2 (demoInterfaces 20))
   \<and> \<not> query_open_ok lockedInterface
   \<and> enumLoop [EnumOk lockedInterface] [] = []
   \<and> EnumerateVaxeeDevices (demoOs 20) [] =
        Inr (enumLoop (take 2 (demoInterfaces 20)) [] @ enumLoop [EnumOk lockedInterface] []
             @ enumLoop (drop 3 (demoInterfaces 20)) [])
   \<and> EnumerateVaxeeDevices (demoOs 20) [] = Inr [kbdInfo, mouseInfo, vendorInfo 20, vendor2Info]
   \<and> SetupDiGetClassDevsW (demoOs 20) [] =
      Some (take 3 (demoInterfaces 20) @ EnumOk mouseInterface # drop 4 (demoInterfaces 20))
   \<and> list_all isEnumOk (take 3 (demoInterfaces 20))
   \<and> manufacturer_string mouseInterface = None \<and> \<not> preparsed_ok mouseInterface
   \<and> enumLoop [EnumOk mouseInterface] [] = [mouseInfo]
   \<and> Manufacturer mouseInfo = [] \<and> FeatureLen mouseInfo = 0
   \<and> SetupDiGetClassDevsW capsFailOs [] = Some ([] @ EnumOk capsFailInterface # [])
   \<and> preparsed_ok capsFailInterface \<and> caps_status capsFailInterface \<noteq> HIDP_STATUS_SUCCESS
   \<and> caps_FeatureReportByteLength (caps capsFailInterface) = 20
   \<and> enumLoop [EnumOk capsFailInterface] [] = [capsFailInfo]
   \<and> UsagePage capsFailInfo = 0 \<and> Usage capsFailInfo = 0 \<and> FeatureLen capsFailInfo = 0
   \<and> EnumerateVaxeeDevices capsFailOs [] = Inr [capsFailInfo]
   \<and> preparsed_ok (demoInterface pathVendor (Some ''VAXEE'') (Some ''VAXEE Mouse'') (Some 20))
   \<and> caps_status (demoInterface pathVendor (Some ''VAXEE'') (Some ''VAXEE Mouse'') (Some 20))
        = HIDP_STATUS_SUCCESS
   \<and> enumLoop [EnumOk (demoInterface pathVendor (Some ''VAXEE'') (Some ''VAXEE Mouse'') (Some 20))] []
        = [vendorInfo 20]
   \<and> FeatureLen (vendorInfo 20) = 20
   \<and> SetupDiGetClassDevsW brokenOs [] = None \<and> isl (EnumerateVaxeeDevices brokenOs [])
   \<and> SetupDiGetClassDevsW foreignOs [] = Some [EnumOk otherInterface]
   \<and> \<not> Contains (ToLower (hidGetString (manufacturer_string otherInterface))) vendorSubstring
   \<and> \<not> Contains (ToLower (hidGetString (product_string otherInterface))) vendorSubstring
   \<and> EnumerateVaxeeDevices foreignOs [] = Inr []"
proof -
  have l1: "SetupDiGetClassDevsW (demoOs 20) [] =
      Some (take 2 (demoInterfaces 20) @ EnumOk lockedInterface # drop 3 (demoInterfaces 20))"
    by (simp add: demoOs_def demoInterfaces_def)
  have l2: "list_all isEnumOk (take 2 (demoInterfaces 20))"
    by (simp add: demoInterfaces_def)
  have l3: "\<not> query_open_ok lockedInterface"
    by (simp add: lockedInterface_def)
  note L = EnumerateVaxeeDevices_failures
    [of "demoOs 20" "[]" "take 2 (demoInterfaces 20)" lockedInterface "drop 3 (demoInterfaces 20)"]
  have m1: "SetupDiGetClassDevsW (demoOs 20) [] =
      Some (take 3 (demoInterfaces 20) @ EnumOk mouseInterface # drop 4 (demoInterfaces 20))"
    by (simp add: demoOs_def demoInterfaces_def)
  have m2: "list_all isEnumOk (take 3 (demoInterfaces 20))"
    by (simp add: demoInterfaces_def)
  have m3: "manufacturer_string mouseInterface = None" "\<not> preparsed_ok mouseInterface"
    by (simp_all add: mouseInterface_def demoInterface_def)
  have m4: "enumLoop [EnumOk mouseInterface] [] = [mouseInfo]"
    by code_simp
  note M = EnumerateVaxeeDevices_failures
    [of "demoOs 20" "[]" "take 3 (demoInterfaces 20)" mouseInterface "drop 4 (demoInterfaces 20)"]
  have m5: "Manufacturer mouseInfo = [] \<and> FeatureLen mouseInfo = 0"
    using M l1 m1 m2 m3 m4 by simp
  have c1: "SetupDiGetClassDevsW capsFailOs [] = Some ([] @ EnumOk capsFailInterface # [])"
    by (simp add: capsFailOs_def)
  have c2: "preparsed_ok capsFailInterface" "caps_status capsFailInterface \<noteq> HIDP_STATUS_SUCCESS"
    "caps_FeatureReportByteLength (caps capsFailInterface) = 20"
    by (simp_all add: capsFailInterface_def demoInterface_def HIDP_STATUS_SUCCESS_def)
  have c3: "enumLoop [EnumOk capsFailInterface] [] = [capsFailInfo]"
    by code_simp
  note C = EnumerateVaxeeDevices_failures [of capsFailOs "[]" "[]" capsFailInterface "[]"]
  have c4: "UsagePage capsFailInfo = 0 \<and> Usage capsFailInfo = 0 \<and> FeatureLen capsFailInfo = 0"
    using C c1 c2 c3 by simp
  have c5: "EnumerateVaxeeDevices capsFailOs [] = Inr [capsFailInfo]"
    using C c1 c3 by simp
  let ?v = "demoInterface pathVendor (Some ''VAXEE'') (Some ''VAXEE Mouse'') (Some 20)"
  have v1: "SetupDiGetClassDevsW (demoOs 20) [] =
      Some (take 4 (demoInterfaces 20) @ EnumOk ?v # drop 5 (demoInterfaces 20))"
    by (simp add: demoOs_def demoInterfaces_def)
  have v2: "list_all isEnumOk (take 4 (demoInterfaces 20))"
    by (simp add: demoInterfaces_def)
  have v3: "preparsed_ok ?v" "caps_status ?v = HIDP_STATUS_SUCCESS"
    "caps_FeatureReportByteLength (caps ?v) = 20"
    by (simp_all add: demoInterface_def)
  have v4: "enumLoop [EnumOk ?v] [] = [vendorInfo 20]"
    by code_simp
  note V = EnumerateVaxeeDevices_failures
    [of "demoOs 20" "[]" "take 4 (demoInterfaces 20)" ?v "drop 5 (demoInterfaces 20)"]
  have v5: "FeatureLen (vendorInfo 20) = 20"
    using V v1 v2 v3 v4 by simp
  have b1: "SetupDiGetClassDevsW brokenOs [] = None"
    by (simp add: brokenOs_def)
  note B = EnumerateVaxeeDevices_failures [of brokenOs "[]"]
  have f1: "SetupDiGetClassDevsW foreignOs [] = Some [EnumOk otherInterface]"
    by (simp add: foreignOs_def)
  have f2: "\<not> Contains (ToLower (hidGetString (manufacturer_string otherInterface))) vendorSubstring"
    by code_simp
  have f3: "\<not> Contains (ToLower (hidGetString (product_string otherInterface))) vendorSubstring"
    by code_simp
  note F = EnumerateVaxeeDevices_failures [of foreignOs "[]" _ _ _ "[EnumOk otherInterface]"]
  have f4: "EnumerateVaxeeDevices foreignOs [] = Inr []"
    using F f1 f2 f3 by simp
  show ?thesis
    using L l1 l2 l3 m1 m2 m3 m4 m5 c1 c2 c3 c4 c5 v3 v4 v5 B b1 f1 f2 f3 f4 demo_enumerate by simp
qed

text \<open>
  Claim C9: every descriptor \<open>EnumerateVaxeeDevices\<close> returns has a manufacturer string
  or a product string whose lower-cased form contains \<open>vaxee\<close>; equivalently, some
  contiguous part of one of the two strings equals \<open>vaxee\<close> up to the case of its letters.
\<close>

theorem EnumerateVaxeeDevices_vendor_filter:
  "EnumerateVaxeeDevices os h = Inr ds \<Longrightarrow> d \<in> set ds \<Longrightarrow>
     (Contains (ToLower (Manufacturer d)) ''vaxee'' \<or> Contains (ToLower (Product d)) ''vaxee'')
     \<and> (\<exists>t. ToLower t = ''vaxee'' \<and> (sublist t (Manufacturer d) \<or> sublist t (Product d)))"
proof -
  assume e: "EnumerateVaxeeDevices os h = Inr ds" and d: "d \<in> set ds"
  from e obtain items where "ds = enumLoop items []"
    by (auto simp: EnumerateVaxeeDevices_def split: option.splits)
  with d obtain ifc where "d \<in> set (enumLoop [EnumOk ifc] [])"
    using enumLoop_member by blast
  from enumLoop_single_member(4) [OF this]
  have m: "Contains (ToLower (Manufacturer d)) ''vaxee'' \<or> Contains (ToLower (Product d)) ''vaxee''"
    by (simp add: vendorSubstring_def)
  have "\<exists>t. ToLower t = ''vaxee'' \<and> sublist t s" if "Contains (ToLower s) ''vaxee''" for s
    using that sublist_map_obtain [of "''vaxee''" toLowerChar s]
    by (simp add: Contains_def ToLower_def)
  with m have "\<exists>t. ToLower t = ''vaxee'' \<and> (sublist t (Manufacturer d) \<or> sublist t (Product d))"
    by metis
  with m show ?thesis by (rule conjI)
qed

theorem EnumerateVaxeeDevices_vendor_filter_witness:
  "EnumerateVaxeeDevices (demoOs 20) [] = Inr [kbdInfo, mouseInfo, vendorInfo 20, vendor2Info]
   \<and> mouseInfo \<in> set [kbdInfo, mouseInfo, vendorInfo 20, vendor2Info]
   \<and> \<not> Contains (ToLower (Manufacturer mouseInfo)) ''vaxee''
   \<and> Contains (ToLower (Product mouseInfo)) ''vaxee''
   \<and> (\<exists>t. ToLower t = ''vaxee'' \<and> (sublist t (Manufacturer mouseInfo) \<or> sublist t (Product mouseInfo)))"
proof -
  have e: "EnumerateVaxeeDevices (demoOs 20) [] = Inr [kbdInfo, mouseInfo, vendorInfo 20, vendor2Info]"
    by (rule demo_enumerate)
  have m: "mouseInfo \<in> set [kbdInfo, mouseInfo, vendorInfo 20, vendor2Info]"
    by simp
  have n: "\<not> Contains (ToLower (Manufacturer mouseInfo)) ''vaxee''"
    by code_simp
  have p: "Contains (ToLower (Product mouseInfo)) ''vaxee''"
    by code_simp
  from EnumerateVaxeeDevices_vendor_filter [OF e m] e m n p show ?thesis
    by blast
qed

section \<open>Histories\<close>

lemma sentReports_append: "sentReports (xs @ ys) = sentReports xs @ sentReports ys"
  by (induction xs rule: sentReports.induct) simp_all

lemma openedPaths_append: "openedPaths (xs @ ys) = openedPaths xs @ openedPaths ys"
  by (induction xs rule: openedPaths.induct) simp_all

lemma answeredPaths_append: "answeredPaths (xs @ ys) = answeredPaths xs @ answeredPaths ys"
  by (induction xs rule: answeredPaths.induct) simp_all

lemma opens_facts:
  assumes "opens path es"
  shows "sentReports es = []" "answeredPaths es = []" "openedPaths es = [path]"
    "\<forall>e \<in> set es. eventPath e = Some path" "es \<noteq> []"
  using assms by (auto simp: opens_def)

lemma openHIDPath_cases:
  assumes "openHIDPath os h path = (r, h')"
  shows "(NUL \<in> set path \<and> r = Inl ErrEINVAL \<and> h' = h) \<or>
         (NUL \<notin> set path \<and> (\<exists>es. h' = h @ es \<and> opens path es))"
  using assms
  by (auto simp: openHIDPath_def Let_def opens_def split: if_splits)

lemma sendFeatureReport_ok:
  assumes "sendFeatureReport os h path report = (Inr u, h')"
  shows "\<exists>es. opens path es \<and> h' = h @ es @ [EvSetFeature path report True, EvCloseHandle path]"
proof -
  from assms obtain h1 where o: "openHIDPath os h path = (Inr (), h1)"
    and h': "h' = h1 @ [EvSetFeature path report True, EvCloseHandle path]"
    by (auto simp: sendFeatureReport_def Let_def split: if_splits prod.splits sum.splits)
  from openHIDPath_cases [OF o] obtain es where "h1 = h @ es" "opens path es"
    by auto
  with h' show ?thesis by auto
qed

lemma sendFeatureReport_failed:
  assumes "sendFeatureReport os h path report = (Inl err, h')"
  shows "h' = h \<or> (\<exists>es. opens path es \<and>
           (h' = h @ es \<or> h' = h @ es @ [EvSetFeature path report False, EvCloseHandle path]))"
proof -
  consider "h' = h" | h1 e where "openHIDPath os h path = (Inl e, h1)" "h' = h1"
    | h1 where "openHIDPath os h path = (Inr (), h1)"
        "h' = h1 @ [EvSetFeature path report False, EvCloseHandle path]"
    using assms
    by (auto simp: sendFeatureReport_def Let_def split: if_splits prod.splits sum.splits)
  then show ?thesis
  proof cases
    case 1
    then show ?thesis by simp
  next
    case 2
    from openHIDPath_cases [OF 2(1)] 2(2) show ?thesis by auto
  next
    case 3
    from openHIDPath_cases [OF 3(1)] 3(2) show ?thesis by auto
  qed
qed

lemma getFeature_ok:
  assumes "getFeature os h path rid len = (Inr filled, h')"
  shows "\<exists>es. opens path es \<and>
           h' = h @ es @ [EvGetFeature path ((replicate (nat len) 0)[0 := rid]) True, EvCloseHandle path]"
proof -
  from assms obtain h1 where o: "openHIDPath os h path = (Inr (), h1)"
    and h': "h' = h1 @ [EvGetFeature path ((replicate (nat len) 0)[0 := rid]) True, EvCloseHandle path]"
    by (auto simp: getFeature_def Let_def split: if_splits prod.splits sum.splits option.splits)
  from openHIDPath_cases [OF o] obtain es where "h1 = h @ es" "opens path es"
    by auto
  with h' show ?thesis by auto
qed

lemma getFeature_failed:
  assumes "getFeature os h path rid len = (Inl err, h')" "0 < len" "NUL \<notin> set path"
  shows "\<exists>es buf. opens path es \<and>
           (h' = h @ es \<or> h' = h @ es @ [EvGetFeature path buf False, EvCloseHandle path])"
proof -
  consider h1 e where "openHIDPath os h path = (Inl e, h1)" "h' = h1"
    | h1 buf where "openHIDPath os h path = (Inr (), h1)"
        "h' = h1 @ [EvGetFeature path buf False, EvCloseHandle path]"
    using assms(1,2)
    by (auto simp: getFeature_def Let_def split: if_splits prod.splits sum.splits option.splits)
  then show ?thesis
  proof cases
    case 1
    from openHIDPath_cases [OF 1(1)] 1(2) assms(3) show ?thesis by auto
  next
    case 2
    from openHIDPath_cases [OF 2(1)] 2(2) assms(3) show ?thesis by auto
  qed
qed

lemma probeLength_pos: "0 < probeLength d"
proof (cases "uint (FeatureLen d) \<le> 0")
  case True
  then show ?thesis by (simp add: probeLength_def Let_def)
next
  case False
  then have "0 < uint (FeatureLen d)" by linarith
  with False show ?thesis by (simp only: probeLength_def Let_def if_False)
qed

text \<open>What one probe adds to the history.\<close>

lemma probe_block:
  assumes "getFeature os h path rid len = (r, h')" "0 < len" "NUL \<notin> set path"
  shows "\<exists>es. h' = h @ es \<and> es \<noteq> [] \<and> (\<forall>e \<in> set es. eventPath e = Some path)
           \<and> openedPaths es = [path] \<and> sentReports es = []
           \<and> (isl r \<longrightarrow> answeredPaths es = [])
           \<and> (\<not> isl r \<longrightarrow> (\<exists>es0. es = es0 @ [EvGetFeature path ((replicate (nat len) 0)[0 := rid]) True, EvCloseHandle path]
                  \<and> answeredPaths es0 = []))"
proof (cases r)
  case (Inl err)
  from getFeature_failed [OF assms(1) [unfolded Inl] assms(2,3)]
  obtain es buf where o: "opens path es"
    and h': "h' = h @ es \<or> h' = h @ es @ [EvGetFeature path buf False, EvCloseHandle path]"
    by blast
  from h' show ?thesis
  proof
    assume "h' = h @ es"
    with opens_facts [OF o] Inl show ?thesis by auto
  next
    assume "h' = h @ es @ [EvGetFeature path buf False, EvCloseHandle path]"
    with opens_facts [OF o] Inl show ?thesis
      by (intro exI [of _ "es @ [EvGetFeature path buf False, EvCloseHandle path]"])
        (auto simp: openedPaths_append sentReports_append answeredPaths_append)
  qed
next
  case (Inr filled)
  let ?buf = "(replicate (nat len) 0)[0 := rid]"
  from getFeature_ok [OF assms(1) [unfolded Inr]]
  obtain es where o: "opens path es"
    and h': "h' = h @ es @ [EvGetFeature path ?buf True, EvCloseHandle path]"
    by blast
  with opens_facts [OF o] Inr show ?thesis
    by (intro exI [of _ "es @ [EvGetFeature path ?buf True, EvCloseHandle path]"])
      (auto simp: openedPaths_append sentReports_append answeredPaths_append)
qed

section \<open>The probe order\<close>

lemma appendNonKbd_eq:
  "appendNonKbd ds order = order @ filter (\<lambda>d. \<not> isKbdPath (Path d)) ds"
  by (induction ds arbitrary: order) simp_all

lemma appendKbd_eq:
  "appendKbd ds order = order @ filter (\<lambda>d. isKbdPath (Path d)) ds"
  by (induction ds arbitrary: order) simp_all

lemma probeOrder_eq:
  "probeOrder ds = filter (\<lambda>d. \<not> isKbdPath (Path d)) ds @ filter (\<lambda>d. isKbdPath (Path d)) ds"
  by (simp add: probeOrder_def appendNonKbd_eq appendKbd_eq)

lemma set_probeOrder: "set (probeOrder ds) = set ds"
  by (auto simp: probeOrder_eq)

text \<open>In the probe order nothing without the suffix comes after something with it.\<close>

lemma probeOrder_split:
  assumes "probeOrder ds = pre @ c # post" "isKbdPath (Path c)" "d \<in> set ds" "\<not> isKbdPath (Path d)"
  shows "d \<in> set pre"
proof -
  let ?non = "filter (\<lambda>d. \<not> isKbdPath (Path d)) ds"
  let ?kbd = "filter (\<lambda>d. isKbdPath (Path d)) ds"
  from assms(1) have eq: "?non @ ?kbd = pre @ c # post"
    by (simp add: probeOrder_eq)
  from eq [unfolded append_eq_append_conv2] obtain us where
    "(?non = pre @ us \<and> us @ ?kbd = c # post) \<or> (?non @ us = pre \<and> ?kbd = us @ c # post)"
    by blast
  then show ?thesis
  proof
    assume a: "?non = pre @ us \<and> us @ ?kbd = c # post"
    have "us = []"
    proof (cases us)
      case Nil
      then show ?thesis .
    next
      case (Cons u us')
      with a have "u = c" by simp
      with Cons a have "c \<in> set ?non" by simp
      with assms(2) show ?thesis by simp
    qed
    with a have "?non = pre" by simp
    moreover have "d \<in> set ?non" using assms(3,4) by simp
    ultimately show ?thesis by simp
  next
    assume a: "?non @ us = pre \<and> ?kbd = us @ c # post"
    have "d \<in> set ?non" using assms(3,4) by simp
    with a show ?thesis by auto
  qed
qed

section \<open>The probing loop\<close>

lemma probeLoop_result:
  assumes "\<forall>c \<in> set cs. NUL \<notin> set (Path c)" "probeLoop os h cs = (r, h')"
  shows "\<exists>es. h' = h @ es \<and> sentReports es = [] \<and>
           ((r = Inl ErrNoControl \<and> openedPaths es = map Path cs \<and> answeredPaths es = []) \<or>
            (\<exists>pre d post es0. cs = pre @ d # post \<and> r = Inr d
               \<and> openedPaths es = map Path (pre @ [d])
               \<and> es = es0 @ [EvGetFeature (Path d) (probeBuffer d) True, EvCloseHandle (Path d)]
               \<and> answeredPaths es0 = []))"
  using assms
proof (induction cs arbitrary: h)
  case Nil
  then show ?case by simp
next
  case (Cons c cs)
  let ?found = "\<lambda>cs es. \<exists>pre d post es0. cs = pre @ d # post \<and> r = Inr d
               \<and> openedPaths es = map Path (pre @ [d])
               \<and> es = es0 @ [EvGetFeature (Path d) (probeBuffer d) True, EvCloseHandle (Path d)]
               \<and> answeredPaths es0 = []"
  obtain r1 h1 where g: "getFeature os h (Path c) 0x0e (probeLength c) = (r1, h1)"
    by (cases "getFeature os h (Path c) 0x0e (probeLength c)")
  from Cons.prems(1) have nul: "NUL \<notin> set (Path c)" by simp
  from probe_block [OF g probeLength_pos nul, folded probeBuffer_def]
  obtain es1 where h1: "h1 = h @ es1" and o1: "openedPaths es1 = [Path c]"
    and s1: "sentReports es1 = []"
    and f1: "isl r1 \<longrightarrow> answeredPaths es1 = []"
    and k1: "\<not> isl r1 \<longrightarrow> (\<exists>es0. es1 = es0 @ [EvGetFeature (Path c) (probeBuffer c) True, EvCloseHandle (Path c)]
                  \<and> answeredPaths es0 = [])"
    by blast
  show ?case
  proof (cases r1)
    case (Inr filled)
    with g Cons.prems(2) have r: "r = Inr c" "h' = h1" by simp_all
    from k1 Inr obtain es0 where
      e: "es1 = es0 @ [EvGetFeature (Path c) (probeBuffer c) True, EvCloseHandle (Path c)]" "answeredPaths es0 = []"
      by auto
    have "c # cs = [] @ c # cs \<and> r = Inr c \<and> openedPaths es1 = map Path ([] @ [c])
          \<and> es1 = es0 @ [EvGetFeature (Path c) (probeBuffer c) True, EvCloseHandle (Path c)]
          \<and> answeredPaths es0 = []"
      using r o1 e by simp
    then have "?found (c # cs) es1"
      by (intro exI)
    with r h1 s1 show ?thesis
      by (intro exI [of _ es1]) simp
  next
    case (Inl err)
    with g Cons.prems(2) have rest: "probeLoop os h1 cs = (r, h')" by simp
    from Cons.prems(1) have "\<forall>c \<in> set cs. NUL \<notin> set (Path c)" by simp
    from Cons.IH [OF this rest] obtain es2 where h': "h' = h1 @ es2" and s2: "sentReports es2 = []"
      and c2: "(r = Inl ErrNoControl \<and> openedPaths es2 = map Path cs \<and> answeredPaths es2 = []) \<or>
            ?found cs es2"
      by blast
    from f1 Inl have a1: "answeredPaths es1 = []" by simp
    have hs: "h' = h @ (es1 @ es2)" "sentReports (es1 @ es2) = []"
      using h' h1 s1 s2 by (simp_all add: sentReports_append)
    from c2 show ?thesis
    proof
      assume "r = Inl ErrNoControl \<and> openedPaths es2 = map Path cs \<and> answeredPaths es2 = []"
      with o1 a1 have "r = Inl ErrNoControl \<and> openedPaths (es1 @ es2) = map Path (c # cs)
          \<and> answeredPaths (es1 @ es2) = []"
        by (simp add: openedPaths_append answeredPaths_append)
      with hs show ?thesis
        by (intro exI [of _ "es1 @ es2"]) simp
    next
      assume "?found cs es2"
      then obtain pre d post es0 where "cs = pre @ d # post" "r = Inr d"
        "openedPaths es2 = map Path (pre @ [d])"
        "es2 = es0 @ [EvGetFeature (Path d) (probeBuffer d) True, EvCloseHandle (Path d)]"
        "answeredPaths es0 = []"
        by blast
      with o1 a1 have "c # cs = (c # pre) @ d # post \<and> r = Inr d
            \<and> openedPaths (es1 @ es2) = map Path ((c # pre) @ [d])
            \<and> es1 @ es2 = (es1 @ es0) @ [EvGetFeature (Path d) (probeBuffer d) True, EvCloseHandle (Path d)]
            \<and> answeredPaths (es1 @ es0) = []"
        by (simp add: openedPaths_append answeredPaths_append)
      then have "?found (c # cs) (es1 @ es2)"
        by (intro exI)
      with hs show ?thesis
        by (intro exI [of _ "es1 @ es2"]) simp
    qed
  qed
qed

lemma probeLoop_event_order:
  assumes "\<forall>c \<in> set cs. NUL \<notin> set (Path c)" "probeLoop os h cs = (r, h @ xs @ e # ys)"
    "eventPath e = Some p"
  shows "\<exists>pre c post. cs = pre @ c # post \<and> Path c = p \<and> set (map Path pre) \<subseteq> set (openedPaths xs)"
  using assms
proof (induction cs arbitrary: h xs)
  case Nil
  then show ?case by simp
next
  case (Cons c cs)
  obtain r1 h1 where g: "getFeature os h (Path c) 0x0e (probeLength c) = (r1, h1)"
    by (cases "getFeature os h (Path c) 0x0e (probeLength c)")
  from Cons.prems(1) have nul: "NUL \<notin> set (Path c)" and nuls: "\<forall>c \<in> set cs. NUL \<notin> set (Path c)"
    by simp_all
  from probe_block [OF g probeLength_pos nul]
  obtain es1 where h1: "h1 = h @ es1" and o1: "openedPaths es1 = [Path c]"
    and p1: "\<forall>e \<in> set es1. eventPath e = Some (Path c)"
    by blast
  have here: ?case if "e \<in> set es1"
  proof -
    from that p1 Cons.prems(3) have "Path c = p" by auto
    then have "c # cs = [] @ c # cs \<and> Path c = p \<and> set (map Path []) \<subseteq> set (openedPaths xs)"
      by simp
    then show ?thesis by (intro exI)
  qed
  show ?case
  proof (cases r1)
    case (Inr filled)
    with g Cons.prems(2) have "h @ xs @ e # ys = h1" by simp
    with h1 have "es1 = xs @ e # ys" by simp
    then have "e \<in> set es1" by simp
    then show ?thesis by (rule here)
  next
    case (Inl err)
    with g Cons.prems(2) have rest: "probeLoop os h1 cs = (r, h @ xs @ e # ys)" by simp
    from probeLoop_result [OF nuls rest] obtain es2 where "h @ xs @ e # ys = h1 @ es2"
      by blast
    with h1 have "es1 @ es2 = xs @ e # ys" by simp
    then obtain us where
      "(es1 = xs @ us \<and> us @ es2 = e # ys) \<or> (es1 @ us = xs \<and> es2 = us @ e # ys)"
      unfolding append_eq_append_conv2 by blast
    then consider "e \<in> set es1" | us' where "xs = es1 @ us'" "es2 = us' @ e # ys"
    proof
      assume a: "es1 = xs @ us \<and> us @ es2 = e # ys"
      show ?thesis
      proof (cases us)
        case Nil
        with a have "xs = es1 @ []" "es2 = [] @ e # ys" by simp_all
        then show ?thesis by (rule that(2))
      next
        case (Cons u us')
        with a have "e \<in> set es1" by simp
        then show ?thesis by (rule that(1))
      qed
    next
      assume "es1 @ us = xs \<and> es2 = us @ e # ys"
      then have "xs = es1 @ us" "es2 = us @ e # ys" by simp_all
      then show ?thesis by (rule that(2))
    qed
    then show ?thesis
    proof cases
      case 1
      then show ?thesis by (rule here)
    next
      case 2
      with rest h1 have "probeLoop os h1 cs = (r, h1 @ us' @ e # ys)" by simp
      from Cons.IH [OF nuls this Cons.prems(3)]
      obtain pre c' post where "cs = pre @ c' # post" "Path c' = p"
        "set (map Path pre) \<subseteq> set (openedPaths us')"
        by blast
      with 2 o1 have "c # cs = (c # pre) @ c' # post \<and> Path c' = p
          \<and> set (map Path (c # pre)) \<subseteq> set (openedPaths xs)"
        by (auto simp: openedPaths_append)
      then show ?thesis by (intro exI)
    qed
  qed
qed

section \<open>The selector's properties\<close>

lemma EnumerateVaxeeDevices_paths:
  assumes "EnumerateVaxeeDevices os h = Inr ds" "d \<in> set ds"
  shows "Path d \<noteq> []" "NUL \<notin> set (Path d)"
proof -
  from assms(1) obtain items where "ds = enumLoop items []"
    by (auto simp: EnumerateVaxeeDevices_def split: option.splits)
  with assms(2) obtain ifc where d: "d \<in> set (enumLoop [EnumOk ifc] [])"
    using enumLoop_member by blast
  show "Path d \<noteq> []" "NUL \<notin> set (Path d)"
    using enumLoop_single_member(2,3) [OF d] .
qed

lemma SelectVaxeeControlPath_result:
  assumes "EnumerateVaxeeDevices os h = Inr ds" "ds \<noteq> []" "SelectVaxeeControlPath os h = (r, h')"
  shows "\<exists>es. h' = h @ es \<and> sentReports es = [] \<and>
           ((r = Inl ErrNoControl \<and> openedPaths es = map Path (probeOrder ds) \<and> answeredPaths es = []) \<or>
            (\<exists>pre d post es0. probeOrder ds = pre @ d # post \<and> r = Inr d
               \<and> openedPaths es = map Path (pre @ [d])
               \<and> es = es0 @ [EvGetFeature (Path d) (probeBuffer d) True, EvCloseHandle (Path d)]
               \<and> answeredPaths es0 = []))"
proof -
  have "\<forall>c \<in> set (probeOrder ds). NUL \<notin> set (Path c)"
    using EnumerateVaxeeDevices_paths(2) [OF assms(1)] by (simp add: set_probeOrder)
  moreover have "probeLoop os h (probeOrder ds) = (r, h')"
    using assms by (simp add: SelectVaxeeControlPath_def)
  ultimately show ?thesis
    by (rule probeLoop_result)
qed

lemma silent_enumerate:
  "EnumerateVaxeeDevices silentOs [] = Inr [kbdInfo, mouseInfo, vendorInfo 20, vendor2Info]"
  by code_simp

text \<open>
  Claim C5: whenever \<open>SelectVaxeeControlPath\<close> makes a system call on a path that ends in
  the keyboard-collection suffix, every enumerated candidate whose path does not end in
  that suffix has been opened for its probe before that call.
\<close>

theorem SelectVaxeeControlPath_kbd_last:
  assumes "EnumerateVaxeeDevices os h = Inr ds" "SelectVaxeeControlPath os h = (r, h')"
    "newEvents h h' = xs @ e # ys" "eventPath e = Some p" "isKbdPath p"
    "d \<in> set ds" "\<not> isKbdPath (Path d)"
  shows "Path d \<in> set (openedPaths xs)"
proof -
  from assms(6) have ne: "ds \<noteq> []" by auto
  from SelectVaxeeControlPath_result [OF assms(1) ne assms(2)] obtain es where "h' = h @ es"
    by blast
  with assms(3) have h': "h' = h @ xs @ e # ys"
    by (simp add: newEvents_def)
  have nuls: "\<forall>c \<in> set (probeOrder ds). NUL \<notin> set (Path c)"
    using EnumerateVaxeeDevices_paths(2) [OF assms(1)] by (simp add: set_probeOrder)
  have "probeLoop os h (probeOrder ds) = (r, h @ xs @ e # ys)"
    using assms(1,2) ne h' by (simp add: SelectVaxeeControlPath_def)
  from probeLoop_event_order [OF nuls this assms(4)]
  obtain pre c post where c: "probeOrder ds = pre @ c # post" "Path c = p"
    and sub: "set (map Path pre) \<subseteq> set (openedPaths xs)"
    by blast
  from c(2) assms(5) have "isKbdPath (Path c)" by simp
  from probeOrder_split [OF c(1) this assms(6,7)] have "d \<in> set pre" .
  with sub show ?thesis by auto
qed

theorem SelectVaxeeControlPath_kbd_last_witness:
  "EnumerateVaxeeDevices silentOs [] = Inr [kbdInfo, mouseInfo, vendorInfo 20, vendor2Info]
   \<and> newEvents [] (snd (SelectVaxeeControlPath silentOs [])) =
        take 9 (snd (SelectVaxeeControlPath silentOs []))
        @ EvCreateFile pathKbd ReadWrite True # drop 10 (snd (SelectVaxeeControlPath silentOs []))
   \<and> eventPath (EvCreateFile pathKbd ReadWrite True) = Some pathKbd
   \<and> isKbdPath pathKbd
   \<and> mouseInfo \<in> set [kbdInfo, mouseInfo, vendorInfo 20, vendor2Info]
   \<and> \<not> isKbdPath (Path mouseInfo)
   \<and> Path mouseInfo \<in> set (openedPaths (take 9 (snd (SelectVaxeeControlPath silentOs []))))
   \<and> openedPaths (snd (SelectVaxeeControlPath silentOs [])) = [pathMouse, pathVendor, pathVendor2, pathKbd]"
proof -
  have s: "SelectVaxeeControlPath silentOs [] =
      (fst (SelectVaxeeControlPath silentOs []), snd (SelectVaxeeControlPath silentOs []))"
    by simp
  have n: "newEvents [] (snd (SelectVaxeeControlPath silentOs [])) =
        take 9 (snd (SelectVaxeeControlPath silentOs []))
        @ EvCreateFile pathKbd ReadWrite True # drop 10 (snd (SelectVaxeeControlPath silentOs []))"
    by code_simp
  have p: "eventPath (EvCreateFile pathKbd ReadWrite True) = Some pathKbd"
    by simp
  have k: "isKbdPath pathKbd"
    by code_simp
  have m: "mouseInfo \<in> set [kbdInfo, mouseInfo, vendorInfo 20, vendor2Info]"
    by simp
  have nk: "\<not> isKbdPath (Path mouseInfo)"
    by code_simp
  have o: "openedPaths (snd (SelectVaxeeControlPath silentOs [])) = [pathMouse, pathVendor, pathVendor2, pathKbd]"
    by code_simp
  from SelectVaxeeControlPath_kbd_last [OF silent_enumerate s n p k m nk] silent_enumerate n p k m nk o
  show ?thesis by (intro conjI)
qed



text \<open>
  Claim C7, as stated, leaves no third failure. When the device-class query fails the
  enumeration yields an error, not an empty list, and the selector returns that error:
  neither of the two failures of the claim, nor a descriptor.
\<close>

theorem SelectVaxeeControlPath_outcomes_counterexample:
  "EnumerateVaxeeDevices brokenOs [] = Inl ErrClassDevs
   \<and> SelectVaxeeControlPath brokenOs [] = (Inl ErrClassDevs, [])"
  by (simp add: SelectVaxeeControlPath_def EnumerateVaxeeDevices_def brokenOs_def)

text \<open>
  Claim C7, amended: when the enumeration fails, \<open>SelectVaxeeControlPath\<close> fails with the
  enumeration's error and makes no probe. When the enumeration succeeds, the selector
  fails with the no-device error exactly when the list of descriptors is empty; it fails
  with the no-control-channel error exactly when the list is not empty and no
  \<^verbatim>\<open>HidD_GetFeature\<close> call of its probes succeeded (every candidate has then been probed);
  otherwise it returns an enumerated descriptor whose probe, made with the report ID
  0x0e, succeeded.
\<close>

theorem SelectVaxeeControlPath_outcomes:
  "(EnumerateVaxeeDevices os h = Inl err \<longrightarrow> SelectVaxeeControlPath os h = (Inl err, h))
   \<and> (EnumerateVaxeeDevices os h = Inr ds \<longrightarrow>
         (fst (SelectVaxeeControlPath os h) = Inl ErrNoDevice \<longleftrightarrow> ds = [])
       \<and> (fst (SelectVaxeeControlPath os h) = Inl ErrNoControl \<longleftrightarrow>
            ds \<noteq> [] \<and> answeredPaths (newEvents h (snd (SelectVaxeeControlPath os h))) = [])
       \<and> (fst (SelectVaxeeControlPath os h) = Inl ErrNoControl \<longrightarrow>
            openedPaths (newEvents h (snd (SelectVaxeeControlPath os h))) = map Path (probeOrder ds))
       \<and> (ds \<noteq> [] \<and> answeredPaths (newEvents h (snd (SelectVaxeeControlPath os h))) \<noteq> [] \<longrightarrow>
            (\<exists>d es0. d \<in> set ds \<and> fst (SelectVaxeeControlPath os h) = Inr d
               \<and> newEvents h (snd (SelectVaxeeControlPath os h)) =
                    es0 @ [EvGetFeature (Path d) (probeBuffer d) True, EvCloseHandle (Path d)]
               \<and> answeredPaths (newEvents h (snd (SelectVaxeeControlPath os h))) = [Path d])))"
proof (intro conjI impI)
  assume "EnumerateVaxeeDevices os h = Inl err"
  then show "SelectVaxeeControlPath os h = (Inl err, h)"
    by (simp add: SelectVaxeeControlPath_def)
next
  assume e: "EnumerateVaxeeDevices os h = Inr ds"
  let ?r = "fst (SelectVaxeeControlPath os h)"
  let ?new = "newEvents h (snd (SelectVaxeeControlPath os h))"
  have s: "SelectVaxeeControlPath os h = (?r, snd (SelectVaxeeControlPath os h))"
    by simp
  have empty: "?r = Inl ErrNoDevice" if "ds = []"
    using e that by (simp add: SelectVaxeeControlPath_def)
  have cases: "(?r = Inl ErrNoControl \<and> openedPaths ?new = map Path (probeOrder ds) \<and> answeredPaths ?new = []) \<or>
      (\<exists>d es0. d \<in> set ds \<and> ?r = Inr d
         \<and> ?new = es0 @ [EvGetFeature (Path d) (probeBuffer d) True, EvCloseHandle (Path d)]
         \<and> answeredPaths ?new = [Path d])" if ne: "ds \<noteq> []"
  proof -
    from SelectVaxeeControlPath_result [OF e ne s] obtain es where
      h': "snd (SelectVaxeeControlPath os h) = h @ es"
      and c: "(?r = Inl ErrNoControl \<and> openedPaths es = map Path (probeOrder ds) \<and> answeredPaths es = []) \<or>
            (\<exists>pre d post es0. probeOrder ds = pre @ d # post \<and> ?r = Inr d
               \<and> openedPaths es = map Path (pre @ [d])
               \<and> es = es0 @ [EvGetFeature (Path d) (probeBuffer d) True, EvCloseHandle (Path d)]
               \<and> answeredPaths es0 = [])"
      by blast
    from h' have new: "?new = es" by (simp add: newEvents_def)
    from c show ?thesis
    proof
      assume "?r = Inl ErrNoControl \<and> openedPaths es = map Path (probeOrder ds) \<and> answeredPaths es = []"
      then show ?thesis unfolding new by (rule disjI1)
    next
      assume "\<exists>pre d post es0. probeOrder ds = pre @ d # post \<and> ?r = Inr d
               \<and> openedPaths es = map Path (pre @ [d])
               \<and> es = es0 @ [EvGetFeature (Path d) (probeBuffer d) True, EvCloseHandle (Path d)]
               \<and> answeredPaths es0 = []"
      then obtain pre d post es0 where p: "probeOrder ds = pre @ d # post" and r: "?r = Inr d"
        and es: "es = es0 @ [EvGetFeature (Path d) (probeBuffer d) True, EvCloseHandle (Path d)]"
        and a: "answeredPaths es0 = []"
        by blast
      from p have "d \<in> set (probeOrder ds)" by simp
      then have "d \<in> set ds" by (simp add: set_probeOrder)
      moreover from es a have "answeredPaths es = [Path d]"
        by (simp add: answeredPaths_append)
      ultimately have "d \<in> set ds \<and> ?r = Inr d
         \<and> es = es0 @ [EvGetFeature (Path d) (probeBuffer d) True, EvCloseHandle (Path d)]
         \<and> answeredPaths es = [Path d]"
        using r es by simp
      then have "\<exists>d es0. d \<in> set ds \<and> ?r = Inr d
         \<and> es = es0 @ [EvGetFeature (Path d) (probeBuffer d) True, EvCloseHandle (Path d)]
         \<and> answeredPaths es = [Path d]"
        by (intro exI)
      then show ?thesis unfolding new by (rule disjI2)
    qed
  qed
  show "?r = Inl ErrNoDevice \<longleftrightarrow> ds = []"
    using empty cases by (cases "ds = []") auto
  show "?r = Inl ErrNoControl \<longleftrightarrow> ds \<noteq> [] \<and> answeredPaths ?new = []"
    using empty cases by (cases "ds = []") auto
  show "openedPaths ?new = map Path (probeOrder ds)" if "?r = Inl ErrNoControl"
    using empty cases that by (cases "ds = []") auto
  show "\<exists>d es0. d \<in> set ds \<and> ?r = Inr d
         \<and> ?new = es0 @ [EvGetFeature (Path d) (probeBuffer d) True, EvCloseHandle (Path d)]
         \<and> answeredPaths ?new = [Path d]" if "ds \<noteq> [] \<and> answeredPaths ?new \<noteq> []"
    using cases that by auto
qed

theorem SelectVaxeeControlPath_outcomes_witness:
  "EnumerateVaxeeDevices brokenOs [] = Inl ErrClassDevs
   \<and> SelectVaxeeControlPath brokenOs [] = (Inl ErrClassDevs, [])
   \<and> EnumerateVaxeeDevices emptyOs [] = Inr []
   \<and> fst (SelectVaxeeControlPath emptyOs []) = Inl ErrNoDevice
   \<and> EnumerateVaxeeDevices silentOs [] = Inr [kbdInfo, mouseInfo, vendorInfo 20, vendor2Info]
   \<and> answeredPaths (newEvents [] (snd (SelectVaxeeControlPath silentOs []))) = []
   \<and> fst (SelectVaxeeControlPath silentOs []) = Inl ErrNoControl
   \<and> openedPaths (newEvents [] (snd (SelectVaxeeControlPath silentOs []))) =
        map Path (probeOrder [kbdInfo, mouseInfo, vendorInfo 20, vendor2Info])
   \<and> EnumerateVaxeeDevices (demoOs 20) [] = Inr [kbdInfo, mouseInfo, vendorInfo 20, vendor2Info]
   \<and> answeredPaths (newEvents [] (snd (SelectVaxeeControlPath (demoOs 20) []))) = [pathVendor]
   \<and> fst (SelectVaxeeControlPath (demoOs 20) []) = Inr (vendorInfo 20)"
proof -
  have b: "EnumerateVaxeeDevices brokenOs [] = Inl ErrClassDevs"
    by (simp add: EnumerateVaxeeDevices_def brokenOs_def)
  note B = SelectVaxeeControlPath_outcomes [of brokenOs "[]" ErrClassDevs]
  have e: "EnumerateVaxeeDevices emptyOs [] = Inr []"
    by (simp add: EnumerateVaxeeDevices_def emptyOs_def)
  note E = SelectVaxeeControlPath_outcomes [of emptyOs "[]" _ "[]"]
  have sa: "answeredPaths (newEvents [] (snd (SelectVaxeeControlPath silentOs []))) = []"
    by code_simp
  note S = SelectVaxeeControlPath_outcomes [of silentOs "[]" _ "[kbdInfo, mouseInfo, vendorInfo 20, vendor2Info]"]
  have da: "answeredPaths (newEvents [] (snd (SelectVaxeeControlPath (demoOs 20) []))) = [pathVendor]"
    by code_simp
  have dr: "fst (SelectVaxeeControlPath (demoOs 20) []) = Inr (vendorInfo 20)"
    by code_simp
  have b2: "SelectVaxeeControlPath brokenOs [] = (Inl ErrClassDevs, [])"
    using B b by simp
  have e2: "fst (SelectVaxeeControlPath emptyOs []) = Inl ErrNoDevice"
    using E e by simp
  have s2: "fst (SelectVaxeeControlPath silentOs []) = Inl ErrNoControl"
    using S silent_enumerate sa by simp
  have s3: "openedPaths (newEvents [] (snd (SelectVaxeeControlPath silentOs []))) =
        map Path (probeOrder [kbdInfo, mouseInfo, vendorInfo 20, vendor2Info])"
    using S silent_enumerate s2 by simp
  show ?thesis
    using b b2 e e2 silent_enumerate sa s2 s3 demo_enumerate da dr by (intro conjI)
qed

section \<open>The applier's properties\<close>

lemma ApplyVaxeeSetting_resolved_eq:
  assumes "FindOneVaxeeDevice os h = (Inr dev, h0)" "Path dev \<noteq> []"
  shows "ApplyVaxeeSetting os h path perf poll = applyReports os h0 (Path dev) (probeLength dev) perf poll"
proof -
  have dev: "(case Inr dev :: error + VaxeeDeviceInfo of Inl x \<Rightarrow> zeroDeviceInfo | Inr d \<Rightarrow> d) = dev"
    by simp
  have len: "(if uint (FeatureLen dev) \<le> 0 then 64 else uint (FeatureLen dev)) = probeLength dev"
    by (simp add: probeLength_def Let_def)
  show ?thesis
    unfolding ApplyVaxeeSetting_def applyReports_def Let_def assms(1) prod.case dev len
    using assms(2) by simp
qed

lemma ApplyVaxeeSetting_unresolved_eq:
  assumes "FindOneVaxeeDevice os h = (Inl err, h0)"
  shows "ApplyVaxeeSetting os h path perf poll = applyReports os h0 path 64 perf poll"
proof -
  have dev: "(case Inl err :: error + VaxeeDeviceInfo of Inl x \<Rightarrow> zeroDeviceInfo | Inr d \<Rightarrow> d) = zeroDeviceInfo"
    by simp
  have len: "(if uint (FeatureLen zeroDeviceInfo) \<le> 0 then 64 else uint (FeatureLen zeroDeviceInfo)) = 64"
    by (simp add: zeroDeviceInfo_def)
  show ?thesis
    unfolding ApplyVaxeeSetting_def applyReports_def Let_def assms(1) prod.case dev len
    by simp
qed

lemma applyReports_cases:
  assumes "applyReports os h0 p n perf poll = (r, h')"
  shows "(\<exists>err. r = Inl (ErrPerfReport err)
            \<and> sendFeatureReport os h0 p (buildReportSized n 0x08 perf) = (Inl err, h'))
       \<or> (\<exists>h1. sendFeatureReport os h0 p (buildReportSized n 0x08 perf) = (Inr (), h1) \<and>
            ((\<exists>err. pollingToYY poll = Inl err \<and> r = Inl err \<and> h' = h1 @ [EvSleep 25])
           \<or> (\<exists>yy. pollingToYY poll = Inr yy \<and>
                ((\<exists>err. r = Inl (ErrPollReport err)
                    \<and> sendFeatureReport os (h1 @ [EvSleep 25]) p (buildReportSized n 0x07 yy) = (Inl err, h'))
               \<or> (r = Inr ()
                    \<and> sendFeatureReport os (h1 @ [EvSleep 25]) p (buildReportSized n 0x07 yy) = (Inr (), h'))))))"
proof -
  obtain r1 h1 where s1: "sendFeatureReport os h0 p (buildReportSized n 0x08 perf) = (r1, h1)"
    by (cases "sendFeatureReport os h0 p (buildReportSized n 0x08 perf)")
  show ?thesis
  proof (cases r1)
    case (Inl err)
    with s1 assms show ?thesis by (simp add: applyReports_def)
  next
    case (Inr u)
    show ?thesis
    proof (cases "pollingToYY poll")
      case (Inl err)
      with s1 Inr assms show ?thesis by (simp add: applyReports_def)
    next
      case yy: (Inr yy)
      obtain r2 h3 where s2: "sendFeatureReport os (h1 @ [EvSleep 25]) p (buildReportSized n 0x07 yy) = (r2, h3)"
        by (cases "sendFeatureReport os (h1 @ [EvSleep 25]) p (buildReportSized n 0x07 yy)")
      show ?thesis
      proof (cases r2)
        case (Inl err)
        with s1 Inr yy s2 assms show ?thesis by (simp add: applyReports_def)
      next
        case r2: (Inr u2)
        with s1 Inr yy s2 assms show ?thesis by (simp add: applyReports_def)
      qed
    qed
  qed
qed

lemma probeLoop_error:
  "probeLoop os h cs = (Inl err, h') \<Longrightarrow> err = ErrNoControl"
proof (induction cs arbitrary: h)
  case Nil
  then show ?case by simp
next
  case (Cons c cs)
  obtain r1 h1 where g: "getFeature os h (Path c) 0x0e (probeLength c) = (r1, h1)"
    by (cases "getFeature os h (Path c) 0x0e (probeLength c)")
  show ?case
  proof (cases r1)
    case (Inl e)
    with g Cons.prems have "probeLoop os h1 cs = (Inl err, h')" by simp
    then show ?thesis by (rule Cons.IH)
  next
    case (Inr filled)
    with g Cons.prems show ?thesis by simp
  qed
qed

lemma FindOneVaxeeDevice_error:
  assumes "FindOneVaxeeDevice os h = (Inl err, h0)"
  shows "err = ErrClassDevs \<or> err = ErrNoDevice \<or> err = ErrNoControl"
proof (cases "EnumerateVaxeeDevices os h")
  case (Inl e)
  then have "e = ErrClassDevs"
    by (auto simp: EnumerateVaxeeDevices_def split: option.splits)
  with Inl assms show ?thesis
    by (simp add: FindOneVaxeeDevice_def SelectVaxeeControlPath_def)
next
  case (Inr ds)
  show ?thesis
  proof (cases "ds = []")
    case True
    with Inr assms show ?thesis
      by (simp add: FindOneVaxeeDevice_def SelectVaxeeControlPath_def)
  next
    case False
    with Inr assms have "probeLoop os h (probeOrder ds) = (Inl err, h0)"
      by (simp add: FindOneVaxeeDevice_def SelectVaxeeControlPath_def)
    from probeLoop_error [OF this] show ?thesis by simp
  qed
qed

lemma FindOneVaxeeDevice_history:
  assumes "FindOneVaxeeDevice os h = (found, h0)"
  shows "\<exists>es. h0 = h @ es \<and> sentReports es = []"
proof (cases "EnumerateVaxeeDevices os h")
  case (Inl e)
  with assms have "h0 = h @ [] \<and> sentReports [] = []"
    by (simp add: FindOneVaxeeDevice_def SelectVaxeeControlPath_def)
  then show ?thesis by (rule exI)
next
  case (Inr ds)
  show ?thesis
  proof (cases "ds = []")
    case True
    with Inr assms have "h0 = h @ [] \<and> sentReports [] = []"
      by (simp add: FindOneVaxeeDevice_def SelectVaxeeControlPath_def)
    then show ?thesis by (rule exI)
  next
    case False
    from assms have "SelectVaxeeControlPath os h = (found, h0)"
      by (simp add: FindOneVaxeeDevice_def)
    from SelectVaxeeControlPath_result [OF Inr False this] show ?thesis
      by blast
  qed
qed

lemma FindOneVaxeeDevice_found:
  assumes "FindOneVaxeeDevice os h = (Inr dev, h0)"
  shows "Path dev \<noteq> []"
proof -
  from assms have s: "SelectVaxeeControlPath os h = (Inr dev, h0)"
    by (simp add: FindOneVaxeeDevice_def)
  then obtain ds where e: "EnumerateVaxeeDevices os h = Inr ds"
    by (cases "EnumerateVaxeeDevices os h") (simp_all add: SelectVaxeeControlPath_def)
  have ne: "ds \<noteq> []"
    using e s by (auto simp: SelectVaxeeControlPath_def)
  from SelectVaxeeControlPath_result [OF e ne s] obtain pre d post where
    "probeOrder ds = pre @ d # post" "Inr dev = (Inr d :: error + VaxeeDeviceInfo)"
    by auto
  then have "dev \<in> set (probeOrder ds)" by simp
  then have "dev \<in> set ds" by (simp add: set_probeOrder)
  from EnumerateVaxeeDevices_paths(1) [OF e this] show ?thesis .
qed

lemma sendFeatureReport_ok_sent:
  assumes "sendFeatureReport os h path report = (Inr u, h')"
  shows "\<exists>es. h' = h @ es \<and> sentReports es = [(path, report)]"
proof -
  from sendFeatureReport_ok [OF assms] obtain a where a: "opens path a"
    and h': "h' = h @ a @ [EvSetFeature path report True, EvCloseHandle path]"
    by blast
  have "sentReports (a @ [EvSetFeature path report True, EvCloseHandle path]) = [(path, report)]"
    using opens_facts(1) [OF a] by (simp add: sentReports_append)
  with h' show ?thesis by blast
qed

lemma sendFeatureReport_failed_sent:
  assumes "sendFeatureReport os h path report = (Inl err, h')"
  shows "\<exists>es. h' = h @ es \<and> (sentReports es = [] \<or> sentReports es = [(path, report)])"
proof -
  from sendFeatureReport_failed [OF assms]
  consider "h' = h @ []" | a where "opens path a" "h' = h @ a"
    | a where "opens path a" "h' = h @ a @ [EvSetFeature path report False, EvCloseHandle path]"
    by auto
  then show ?thesis
  proof cases
    case 1
    then have "h' = h @ [] \<and> (sentReports [] = [] \<or> sentReports [] = [(path, report)])" by simp
    then show ?thesis by (rule exI)
  next
    case 2
    with opens_facts(1) [OF 2(1)] have "h' = h @ a \<and> (sentReports a = [] \<or> sentReports a = [(path, report)])"
      by simp
    then show ?thesis by (rule exI)
  next
    case 3
    let ?es = "a @ [EvSetFeature path report False, EvCloseHandle path]"
    from 3 opens_facts(1) [OF 3(1)]
    have "h' = h @ ?es \<and> (sentReports ?es = [] \<or> sentReports ?es = [(path, report)])"
      by (simp add: sentReports_append)
    then show ?thesis by (rule exI)
  qed
qed

lemma applyReports_success:
  assumes "applyReports os h0 p n perf poll = (Inr (), h')"
  shows "\<exists>yy a b. pollingToYY poll = Inr yy \<and> opens p a \<and> opens p b \<and>
           h' = h0 @ a @ [EvSetFeature p (buildReportSized n 0x08 perf) True, EvCloseHandle p, EvSleep 25]
                   @ b @ [EvSetFeature p (buildReportSized n 0x07 yy) True, EvCloseHandle p]"
proof -
  from applyReports_cases [OF assms] obtain h1 yy where
    s1: "sendFeatureReport os h0 p (buildReportSized n 0x08 perf) = (Inr (), h1)"
    and yy: "pollingToYY poll = Inr yy"
    and s2: "sendFeatureReport os (h1 @ [EvSleep 25]) p (buildReportSized n 0x07 yy) = (Inr (), h')"
    by auto
  from sendFeatureReport_ok [OF s1] obtain a where a: "opens p a"
    and h1: "h1 = h0 @ a @ [EvSetFeature p (buildReportSized n 0x08 perf) True, EvCloseHandle p]"
    by blast
  from sendFeatureReport_ok [OF s2] obtain b where b: "opens p b"
    and h': "h' = (h1 @ [EvSleep 25]) @ b @ [EvSetFeature p (buildReportSized n 0x07 yy) True, EvCloseHandle p]"
    by blast
  from yy a b h1 h' have "pollingToYY poll = Inr yy \<and> opens p a \<and> opens p b \<and>
           h' = h0 @ a @ [EvSetFeature p (buildReportSized n 0x08 perf) True, EvCloseHandle p, EvSleep 25]
                   @ b @ [EvSetFeature p (buildReportSized n 0x07 yy) True, EvCloseHandle p]"
    by simp
  then show ?thesis by (intro exI)
qed

lemma probeLength_declared: "0 < uint (FeatureLen d) \<Longrightarrow> probeLength d = uint (FeatureLen d)"
  by (simp add: probeLength_def Let_def)

lemma applyReports_outcome:
  assumes h0: "h0 = h @ es0" "sentReports es0 = []"
    and yy: "pollingToYY poll = Inr yy"
    and a: "applyReports os h0 p n perf poll = (r, h')"
  shows "(r = Inr () \<longrightarrow>
            sentReports (newEvents h h') = [(p, buildReportSized n 0x08 perf), (p, buildReportSized n 0x07 yy)]
          \<and> (\<exists>a b. opens p a \<and> opens p b \<and>
                newEvents h0 h' =
                  a @ [EvSetFeature p (buildReportSized n 0x08 perf) True, EvCloseHandle p, EvSleep 25]
                    @ b @ [EvSetFeature p (buildReportSized n 0x07 yy) True, EvCloseHandle p]))
       \<and> (r \<noteq> Inr () \<longrightarrow>
            (\<exists>err. r = Inl (ErrPerfReport err)
               \<and> sendFeatureReport os h0 p (buildReportSized n 0x08 perf) = (Inl err, h'))
          \<or> (\<exists>err h1. r = Inl (ErrPollReport err)
               \<and> sendFeatureReport os h0 p (buildReportSized n 0x08 perf) = (Inr (), h1)
               \<and> sendFeatureReport os (h1 @ [EvSleep 25]) p (buildReportSized n 0x07 yy) = (Inl err, h')))"
proof (intro conjI impI)
  assume r: "r = Inr ()"
  from applyReports_success [OF a [unfolded r]] yy obtain a b where ab: "opens p a" "opens p b"
    and h': "h' = h0 @ a @ [EvSetFeature p (buildReportSized n 0x08 perf) True, EvCloseHandle p, EvSleep 25]
                   @ b @ [EvSetFeature p (buildReportSized n 0x07 yy) True, EvCloseHandle p]"
    by auto
  from h' h0 opens_facts(1) [OF ab(1)] opens_facts(1) [OF ab(2)]
  show "sentReports (newEvents h h') = [(p, buildReportSized n 0x08 perf), (p, buildReportSized n 0x07 yy)]"
    by (simp add: newEvents_def sentReports_append)
  from h' have "newEvents h0 h' =
      a @ [EvSetFeature p (buildReportSized n 0x08 perf) True, EvCloseHandle p, EvSleep 25]
        @ b @ [EvSetFeature p (buildReportSized n 0x07 yy) True, EvCloseHandle p]"
    by (simp add: newEvents_def)
  with ab show "\<exists>a b. opens p a \<and> opens p b \<and>
                newEvents h0 h' =
                  a @ [EvSetFeature p (buildReportSized n 0x08 perf) True, EvCloseHandle p, EvSleep 25]
                    @ b @ [EvSetFeature p (buildReportSized n 0x07 yy) True, EvCloseHandle p]"
    by blast
next
  assume "r \<noteq> Inr ()"
  with applyReports_cases [OF a] yy
  show "(\<exists>err. r = Inl (ErrPerfReport err)
               \<and> sendFeatureReport os h0 p (buildReportSized n 0x08 perf) = (Inl err, h'))
          \<or> (\<exists>err h1. r = Inl (ErrPollReport err)
               \<and> sendFeatureReport os h0 p (buildReportSized n 0x08 perf) = (Inr (), h1)
               \<and> sendFeatureReport os (h1 @ [EvSleep 25]) p (buildReportSized n 0x07 yy) = (Inl err, h'))"
    by auto
qed

text \<open>
  Claim C1, as stated, has the unsupported rate refused before any report is sent. In the
  example system a call with the rate 500 fails with the unsupported-rate error, but the
  performance-mode report has been sent, and accepted, before.
\<close>

theorem ApplyVaxeeSetting_unsupported_rate_counterexample:
  "(500 :: int) \<notin> {1000, 2000, 4000}
   \<and> fst (ApplyVaxeeSetting (demoOs 20) [] pathVendor PerfCompetitiveMSOff 500) = Inl (ErrUnsupportedRate 500)
   \<and> sentReports (snd (ApplyVaxeeSetting (demoOs 20) [] pathVendor PerfCompetitiveMSOff 500))
        = [(pathVendor, buildReportSized 20 0x08 0x01)]
   \<and> EvSetFeature pathVendor (buildReportSized 20 0x08 0x01) True
        \<in> set (snd (ApplyVaxeeSetting (demoOs 20) [] pathVendor PerfCompetitiveMSOff 500))"
proof -
  have "(500 :: int) \<notin> {1000, 2000, 4000}" by simp
  moreover have "fst (ApplyVaxeeSetting (demoOs 20) [] pathVendor PerfCompetitiveMSOff 500) = Inl (ErrUnsupportedRate 500)"
    by code_simp
  moreover have "sentReports (snd (ApplyVaxeeSetting (demoOs 20) [] pathVendor PerfCompetitiveMSOff 500))
        = [(pathVendor, buildReportSized 20 0x08 0x01)]"
    by code_simp
  moreover have "EvSetFeature pathVendor (buildReportSized 20 0x08 0x01) True
        \<in> set (snd (ApplyVaxeeSetting (demoOs 20) [] pathVendor PerfCompetitiveMSOff 500))"
    by code_simp
  ultimately show ?thesis by (intro conjI)
qed

text \<open>
  Claim C1, amended: a call of \<open>ApplyVaxeeSetting\<close> with a rate outside 1000, 2000 and
  4000 never succeeds and never sends a polling-rate report. The performance-mode
  report (command 0x08) is sent first. If that send fails, the call returns that failure
  and at most this one report was handed to the device; otherwise the call returns the
  unsupported-rate error after the pause, and exactly this one report was sent.
\<close>

theorem ApplyVaxeeSetting_unsupported_rate:
  assumes "poll \<notin> {1000, 2000, 4000}"
    and "FindOneVaxeeDevice os h = (found, h0)"
    and "p = (case found of Inl err \<Rightarrow> path | Inr dev \<Rightarrow> Path dev)"
    and "n = (case found of Inl err \<Rightarrow> 64 | Inr dev \<Rightarrow> probeLength dev)"
    and "ApplyVaxeeSetting os h path perf poll = (r, h')"
  shows "(\<exists>err. r = Inl (ErrPerfReport err)
             \<and> sendFeatureReport os h0 p (buildReportSized n 0x08 perf) = (Inl err, h')
             \<and> (sentReports (newEvents h h') = []
                \<or> sentReports (newEvents h h') = [(p, buildReportSized n 0x08 perf)]))
        \<or> (r = Inl (ErrUnsupportedRate poll)
             \<and> (\<exists>h1. sendFeatureReport os h0 p (buildReportSized n 0x08 perf) = (Inr (), h1)
                   \<and> h' = h1 @ [EvSleep 25])
             \<and> sentReports (newEvents h h') = [(p, buildReportSized n 0x08 perf)])"
proof -
  from FindOneVaxeeDevice_history [OF assms(2)] obtain es0 where h0: "h0 = h @ es0" "sentReports es0 = []"
    by blast
  have a: "applyReports os h0 p n perf poll = (r, h')"
  proof (cases found)
    case (Inl e)
    from ApplyVaxeeSetting_unresolved_eq [OF assms(2) [unfolded Inl], of path perf poll] assms(3,4,5) Inl
    show ?thesis by simp
  next
    case (Inr dev)
    note f = assms(2) [unfolded Inr]
    from ApplyVaxeeSetting_resolved_eq [OF f FindOneVaxeeDevice_found [OF f], of path perf poll]
      assms(3,4,5) Inr
    show ?thesis by simp
  qed
  let ?R1 = "buildReportSized n 0x08 perf"
  have rate: "pollingToYY poll = Inl (ErrUnsupportedRate poll)"
    using assms(1) by (simp add: pollingToYY_def Poll1000_def Poll2000_def Poll4000_def)
  from applyReports_cases [OF a] rate
  consider err where "r = Inl (ErrPerfReport err)" "sendFeatureReport os h0 p ?R1 = (Inl err, h')"
    | h1 where "r = Inl (ErrUnsupportedRate poll)" "sendFeatureReport os h0 p ?R1 = (Inr (), h1)"
        "h' = h1 @ [EvSleep 25]"
    by auto
  then show ?thesis
  proof cases
    case 1
    from sendFeatureReport_failed_sent [OF 1(2)] obtain es where
      "h' = h0 @ es" "sentReports es = [] \<or> sentReports es = [(p, ?R1)]"
      by blast
    with h0 have "sentReports (newEvents h h') = [] \<or> sentReports (newEvents h h') = [(p, ?R1)]"
      by (auto simp: newEvents_def sentReports_append)
    with 1 show ?thesis by blast
  next
    case 2
    from sendFeatureReport_ok_sent [OF 2(2)] obtain es where "h1 = h0 @ es" "sentReports es = [(p, ?R1)]"
      by blast
    with h0 2(3) have "sentReports (newEvents h h') = [(p, ?R1)]"
      by (simp add: newEvents_def sentReports_append)
    with 2 show ?thesis by blast
  qed
qed

theorem ApplyVaxeeSetting_unsupported_rate_witness:
  "(500 :: int) \<notin> {1000, 2000, 4000}
   \<and> FindOneVaxeeDevice (demoOs 20) [] = (Inr (vendorInfo 20), snd (FindOneVaxeeDevice (demoOs 20) []))
   \<and> ApplyVaxeeSetting (demoOs 20) [] pathMouse PerfCompetitiveMSOff 500 =
       (Inl (ErrUnsupportedRate 500), snd (ApplyVaxeeSetting (demoOs 20) [] pathMouse PerfCompetitiveMSOff 500))
   \<and> sentReports (newEvents [] (snd (ApplyVaxeeSetting (demoOs 20) [] pathMouse PerfCompetitiveMSOff 500)))
        = [(pathVendor, buildReportSized 20 0x08 PerfCompetitiveMSOff)]"
proof -
  have r: "(500 :: int) \<notin> {1000, 2000, 4000}" by simp
  have "fst (FindOneVaxeeDevice (demoOs 20) []) = Inr (vendorInfo 20)"
    by code_simp
  then have f: "FindOneVaxeeDevice (demoOs 20) [] = (Inr (vendorInfo 20), snd (FindOneVaxeeDevice (demoOs 20) []))"
    by (metis prod.collapse)
  have p: "pathVendor = (case Inr (vendorInfo 20) :: error + VaxeeDeviceInfo of
      Inl err \<Rightarrow> pathMouse | Inr dev \<Rightarrow> Path dev)"
    by (simp add: vendorInfo_def)
  have n: "20 = (case Inr (vendorInfo 20) :: error + VaxeeDeviceInfo of
      Inl err \<Rightarrow> 64 | Inr dev \<Rightarrow> probeLength dev)"
    by (simp add: vendorInfo_def probeLength_def)
  have "fst (ApplyVaxeeSetting (demoOs 20) [] pathMouse PerfCompetitiveMSOff 500) = Inl (ErrUnsupportedRate 500)"
    by code_simp
  then have a: "ApplyVaxeeSetting (demoOs 20) [] pathMouse PerfCompetitiveMSOff 500 =
       (Inl (ErrUnsupportedRate 500), snd (ApplyVaxeeSetting (demoOs 20) [] pathMouse PerfCompetitiveMSOff 500))"
    by (metis prod.collapse)
  from ApplyVaxeeSetting_unsupported_rate [OF r f p n a]
  have "sentReports (newEvents [] (snd (ApplyVaxeeSetting (demoOs 20) [] pathMouse PerfCompetitiveMSOff 500)))
        = [(pathVendor, buildReportSized 20 0x08 PerfCompetitiveMSOff)]"
    by auto
  with r f a show ?thesis by (intro conjI)
qed

text \<open>
  Claim C3, as stated, gives both reports the declared length \<open>L\<close> for every \<open>L > 0\<close>.
  With a control collection that declares a feature-report length of 3, both reports
  have length 6.
\<close>

theorem ApplyVaxeeSetting_resolved_counterexample:
  "fst (FindOneVaxeeDevice (demoOs 3) []) = Inr (vendorInfo 3)
   \<and> uint (FeatureLen (vendorInfo 3)) = 3
   \<and> fst (ApplyVaxeeSetting (demoOs 3) [] pathVendor PerfCompetitiveMSOff Poll1000) = Inr ()
   \<and> map (\<lambda>(p, report). length report)
        (sentReports (snd (ApplyVaxeeSetting (demoOs 3) [] pathVendor PerfCompetitiveMSOff Poll1000))) = [6, 6]"
proof -
  have "fst (FindOneVaxeeDevice (demoOs 3) []) = Inr (vendorInfo 3)"
    by code_simp
  moreover have "uint (FeatureLen (vendorInfo 3)) = 3"
    by (simp add: vendorInfo_def)
  moreover have "fst (ApplyVaxeeSetting (demoOs 3) [] pathVendor PerfCompetitiveMSOff Poll1000) = Inr ()"
    by code_simp
  moreover have "map (\<lambda>(p, report). length report)
        (sentReports (snd (ApplyVaxeeSetting (demoOs 3) [] pathVendor PerfCompetitiveMSOff Poll1000))) = [6, 6]"
    by code_simp
  ultimately show ?thesis by (intro conjI)
qed

text \<open>
  Claim C3, amended: when the control path resolves to a descriptor with declared
  feature-report length \<open>L > 0\<close> and the rate is supported, both reports have length
  \<open>max L 6\<close>. A successful call sends exactly two reports to the resolved path: the
  performance-mode report (command 0x08, payload the mode) and then the polling-rate
  report (command 0x07, payload the rate's byte), each accepted, with the pause of 25 ms
  between them. A call that does not succeed returns the failure of the first send, with
  nothing after it, or the failure of the second send after an accepted first report.
\<close>

theorem ApplyVaxeeSetting_resolved:
  assumes "FindOneVaxeeDevice os h = (Inr dev, h0)"
    and "0 < uint (FeatureLen dev)"
    and "pollingToYY poll = Inr yy"
    and "ApplyVaxeeSetting os h path perf poll = (r, h')"
  shows "int (length (buildReportSized (uint (FeatureLen dev)) 0x08 perf)) = max (uint (FeatureLen dev)) 6
       \<and> int (length (buildReportSized (uint (FeatureLen dev)) 0x07 yy)) = max (uint (FeatureLen dev)) 6
       \<and> (r = Inr () \<longrightarrow>
            sentReports (newEvents h h') =
              [(Path dev, buildReportSized (uint (FeatureLen dev)) 0x08 perf),
               (Path dev, buildReportSized (uint (FeatureLen dev)) 0x07 yy)]
          \<and> (\<exists>a b. opens (Path dev) a \<and> opens (Path dev) b \<and>
                newEvents h0 h' =
                  a @ [EvSetFeature (Path dev) (buildReportSized (uint (FeatureLen dev)) 0x08 perf) True,
                       EvCloseHandle (Path dev), EvSleep 25]
                    @ b @ [EvSetFeature (Path dev) (buildReportSized (uint (FeatureLen dev)) 0x07 yy) True,
                           EvCloseHandle (Path dev)]))
       \<and> (r \<noteq> Inr () \<longrightarrow>
            (\<exists>err. r = Inl (ErrPerfReport err)
               \<and> sendFeatureReport os h0 (Path dev) (buildReportSized (uint (FeatureLen dev)) 0x08 perf) = (Inl err, h'))
          \<or> (\<exists>err h1. r = Inl (ErrPollReport err)
               \<and> sendFeatureReport os h0 (Path dev) (buildReportSized (uint (FeatureLen dev)) 0x08 perf) = (Inr (), h1)
               \<and> sendFeatureReport os (h1 @ [EvSleep 25]) (Path dev) (buildReportSized (uint (FeatureLen dev)) 0x07 yy)
                   = (Inl err, h')))"
proof -
  from FindOneVaxeeDevice_history [OF assms(1)] obtain es0 where h0: "h0 = h @ es0" "sentReports es0 = []"
    by blast
  have "applyReports os h0 (Path dev) (uint (FeatureLen dev)) perf poll = (r, h')"
    using ApplyVaxeeSetting_resolved_eq [OF assms(1) FindOneVaxeeDevice_found [OF assms(1)], of path perf poll]
      assms(4) probeLength_declared [OF assms(2)]
    by simp
  from applyReports_outcome [OF h0 assms(3) this] buildReportSized_length
  show ?thesis by blast
qed

theorem ApplyVaxeeSetting_resolved_witness:
  "FindOneVaxeeDevice (demoOs 20) [] = (Inr (vendorInfo 20), snd (FindOneVaxeeDevice (demoOs 20) []))
   \<and> 0 < uint (FeatureLen (vendorInfo 20))
   \<and> pollingToYY Poll1000 = Inr 0x02
   \<and> ApplyVaxeeSetting (demoOs 20) [] pathMouse PerfCompetitiveMSOff Poll1000 =
        (Inr (), snd (ApplyVaxeeSetting (demoOs 20) [] pathMouse PerfCompetitiveMSOff Poll1000))
   \<and> int (length (buildReportSized (uint (FeatureLen (vendorInfo 20))) 0x08 PerfCompetitiveMSOff)) = 20
   \<and> int (length (buildReportSized (uint (FeatureLen (vendorInfo 20))) 0x07 0x02)) = 20
   \<and> sentReports (newEvents [] (snd (ApplyVaxeeSetting (demoOs 20) [] pathMouse PerfCompetitiveMSOff Poll1000))) =
        [(pathVendor, buildReportSized 20 0x08 0x01), (pathVendor, buildReportSized 20 0x07 0x02)]
   \<and> newEvents (snd (FindOneVaxeeDevice (demoOs 20) []))
        (snd (ApplyVaxeeSetting (demoOs 20) [] pathMouse PerfCompetitiveMSOff Poll1000)) =
        [EvCreateFile pathVendor ReadWrite True,
         EvSetFeature pathVendor (buildReportSized 20 0x08 0x01) True, EvCloseHandle pathVendor,
         EvSleep 25,
         EvCreateFile pathVendor ReadWrite True,
         EvSetFeature pathVendor (buildReportSized 20 0x07 0x02) True, EvCloseHandle pathVendor]"
proof -
  have "fst (FindOneVaxeeDevice (demoOs 20) []) = Inr (vendorInfo 20)"
    by code_simp
  then have f: "FindOneVaxeeDevice (demoOs 20) [] = (Inr (vendorInfo 20), snd (FindOneVaxeeDevice (demoOs 20) []))"
    by (metis prod.collapse)
  have l: "0 < uint (FeatureLen (vendorInfo 20))"
    by (simp add: vendorInfo_def)
  have y: "pollingToYY Poll1000 = Inr 0x02"
    by (simp add: pollingToYY_def)
  have "fst (ApplyVaxeeSetting (demoOs 20) [] pathMouse PerfCompetitiveMSOff Poll1000) = Inr ()"
    by code_simp
  then have a: "ApplyVaxeeSetting (demoOs 20) [] pathMouse PerfCompetitiveMSOff Poll1000 =
        (Inr (), snd (ApplyVaxeeSetting (demoOs 20) [] pathMouse PerfCompetitiveMSOff Poll1000))"
    by (metis prod.collapse)
  have v: "uint (FeatureLen (vendorInfo 20)) = 20" "Path (vendorInfo 20) = pathVendor"
    "PerfCompetitiveMSOff = 0x01"
    by (simp_all add: vendorInfo_def PerfCompetitiveMSOff_def)
  have t: "newEvents (snd (FindOneVaxeeDevice (demoOs 20) []))
        (snd (ApplyVaxeeSetting (demoOs 20) [] pathMouse PerfCompetitiveMSOff Poll1000)) =
        [EvCreateFile pathVendor ReadWrite True,
         EvSetFeature pathVendor (buildReportSized 20 0x08 0x01) True, EvCloseHandle pathVendor,
         EvSleep 25,
         EvCreateFile pathVendor ReadWrite True,
         EvSetFeature pathVendor (buildReportSized 20 0x07 0x02) True, EvCloseHandle pathVendor]"
    by code_simp
  note T = ApplyVaxeeSetting_resolved [OF f l y a]
  have s: "sentReports (newEvents [] (snd (ApplyVaxeeSetting (demoOs 20) [] pathMouse PerfCompetitiveMSOff Poll1000))) =
        [(pathVendor, buildReportSized 20 0x08 0x01), (pathVendor, buildReportSized 20 0x07 0x02)]"
    using T unfolding v by simp
  have n: "int (length (buildReportSized (uint (FeatureLen (vendorInfo 20))) 0x08 PerfCompetitiveMSOff)) = 20"
    "int (length (buildReportSized (uint (FeatureLen (vendorInfo 20))) 0x07 0x02)) = 20"
    using T unfolding v by simp_all
  from f l y a n s t show ?thesis by (intro conjI)
qed

text \<open>
  Claim C10, as stated, covers every call whose resolution fails. With the rate 500, on a
  system where the resolution fails and every send succeeds, one report is sent and the
  call fails with the unsupported-rate error: the outcome is not decided by the sends.
\<close>

theorem ApplyVaxeeSetting_unresolved_counterexample:
  "fst (FindOneVaxeeDevice emptyOs []) = Inl ErrNoDevice
   \<and> fst (ApplyVaxeeSetting emptyOs [] pathVendor PerfCompetitiveMSOff 500) = Inl (ErrUnsupportedRate 500)
   \<and> snd (ApplyVaxeeSetting emptyOs [] pathVendor PerfCompetitiveMSOff 500) =
        [EvCreateFile pathVendor ReadWrite True,
         EvSetFeature pathVendor (buildReportSized 64 0x08 0x01) True, EvCloseHandle pathVendor,
         EvSleep 25]"
proof -
  have "fst (FindOneVaxeeDevice emptyOs []) = Inl ErrNoDevice"
    by code_simp
  moreover have "fst (ApplyVaxeeSetting emptyOs [] pathVendor PerfCompetitiveMSOff 500) = Inl (ErrUnsupportedRate 500)"
    by code_simp
  moreover have "snd (ApplyVaxeeSetting emptyOs [] pathVendor PerfCompetitiveMSOff 500) =
        [EvCreateFile pathVendor ReadWrite True,
         EvSetFeature pathVendor (buildReportSized 64 0x08 0x01) True, EvCloseHandle pathVendor,
         EvSleep 25]"
    by code_simp
  ultimately show ?thesis by (intro conjI)
qed

text \<open>
  Claim C10, amended: when the resolution inside \<open>ApplyVaxeeSetting\<close> fails and the rate
  is supported, the call does not return the resolution's failure. Both reports are
  built with the length 64 and go to the path the caller supplied; a successful call has
  sent exactly these two, and a call that does not succeed returns the failure of the
  first send or, after an accepted first report, of the second.
\<close>

theorem ApplyVaxeeSetting_unresolved:
  assumes "FindOneVaxeeDevice os h = (Inl e, h0)"
    and "pollingToYY poll = Inr yy"
    and "ApplyVaxeeSetting os h path perf poll = (r, h')"
  shows "r \<noteq> Inl e
       \<and> length (buildReportSized 64 0x08 perf) = 64 \<and> length (buildReportSized 64 0x07 yy) = 64
       \<and> (r = Inr () \<longrightarrow>
            sentReports (newEvents h h') =
              [(path, buildReportSized 64 0x08 perf), (path, buildReportSized 64 0x07 yy)]
          \<and> (\<exists>a b. opens path a \<and> opens path b \<and>
                newEvents h0 h' =
                  a @ [EvSetFeature path (buildReportSized 64 0x08 perf) True, EvCloseHandle path, EvSleep 25]
                    @ b @ [EvSetFeature path (buildReportSized 64 0x07 yy) True, EvCloseHandle path]))
       \<and> (r \<noteq> Inr () \<longrightarrow>
            (\<exists>err. r = Inl (ErrPerfReport err)
               \<and> sendFeatureReport os h0 path (buildReportSized 64 0x08 perf) = (Inl err, h'))
          \<or> (\<exists>err h1. r = Inl (ErrPollReport err)
               \<and> sendFeatureReport os h0 path (buildReportSized 64 0x08 perf) = (Inr (), h1)
               \<and> sendFeatureReport os (h1 @ [EvSleep 25]) path (buildReportSized 64 0x07 yy) = (Inl err, h')))"
proof -
  from FindOneVaxeeDevice_history [OF assms(1)] obtain es0 where h0: "h0 = h @ es0" "sentReports es0 = []"
    by blast
  have a: "applyReports os h0 path 64 perf poll = (r, h')"
    using ApplyVaxeeSetting_unresolved_eq [OF assms(1), of path perf poll] assms(3) by simp
  note o = applyReports_outcome [OF h0 assms(2) a]
  have len: "length (buildReportSized 64 0x08 perf) = 64" "length (buildReportSized 64 0x07 yy) = 64"
    by (simp_all add: buildReportSized_eq)
  have "r \<noteq> Inl e"
  proof
    assume "r = Inl e"
    with o have "(\<exists>err. e = ErrPerfReport err) \<or> (\<exists>err. e = ErrPollReport err)"
      by auto
    with FindOneVaxeeDevice_error [OF assms(1)] show False by auto
  qed
  with o len show ?thesis by blast
qed

theorem ApplyVaxeeSetting_unresolved_witness:
  "FindOneVaxeeDevice silentOs [] = (Inl ErrNoControl, snd (FindOneVaxeeDevice silentOs []))
   \<and> pollingToYY Poll2000 = Inr 0x03
   \<and> ApplyVaxeeSetting silentOs [] pathMouse PerfStandardMSOff Poll2000 =
        (Inr (), snd (ApplyVaxeeSetting silentOs [] pathMouse PerfStandardMSOff Poll2000))
   \<and> length (buildReportSized 64 0x08 PerfStandardMSOff) = 64
   \<and> length (buildReportSized 64 0x07 0x03) = 64
   \<and> sentReports (newEvents [] (snd (ApplyVaxeeSetting silentOs [] pathMouse PerfStandardMSOff Poll2000))) =
        [(pathMouse, buildReportSized 64 0x08 PerfStandardMSOff), (pathMouse, buildReportSized 64 0x07 0x03)]"
proof -
  have "fst (FindOneVaxeeDevice silentOs []) = Inl ErrNoControl"
    by code_simp
  then have f: "FindOneVaxeeDevice silentOs [] = (Inl ErrNoControl, snd (FindOneVaxeeDevice silentOs []))"
    by (metis prod.collapse)
  have y: "pollingToYY Poll2000 = Inr 0x03"
    by (simp add: pollingToYY_def Poll1000_def Poll2000_def)
  have "fst (ApplyVaxeeSetting silentOs [] pathMouse PerfStandardMSOff Poll2000) = Inr ()"
    by code_simp
  then have a: "ApplyVaxeeSetting silentOs [] pathMouse PerfStandardMSOff Poll2000 =
        (Inr (), snd (ApplyVaxeeSetting silentOs [] pathMouse PerfStandardMSOff Poll2000))"
    by (metis prod.collapse)
  note T = ApplyVaxeeSetting_unresolved [OF f y a]
  from T have "length (buildReportSized 64 0x08 PerfStandardMSOff) = 64"
    "length (buildReportSized 64 0x07 0x03) = 64"
    "sentReports (newEvents [] (snd (ApplyVaxeeSetting silentOs [] pathMouse PerfStandardMSOff Poll2000))) =
        [(pathMouse, buildReportSized 64 0x08 PerfStandardMSOff), (pathMouse, buildReportSized 64 0x07 0x03)]"
    by simp_all
  with f y a show ?thesis by (intro conjI)
qed

end
